theory Spec2Isabelle
  imports Complex_Main "HOL-Library.Char_ord" "HOL-Library.List_Lexorder"
begin

section \<open>Numbers\<close>

text \<open>
  A JavaScript number is an IEEE 754 double: NaN, an infinity, or a finite value, which
  is a rational number (\<open>Finite\<close> holds doubles only; the two zeros are not told
  apart, nothing here divides by a number or prints the sign of a zero). An arithmetic
  result is the exact result rounded to the nearest double, a tie to the even
  significand: a double has 53 significant bits, its last bit is worth \<open>2^-1074\<close> at
  least, and a rounded magnitude of \<open>2^1024\<close> or more is an infinity.
\<close>

datatype Number = NaN | PosInf | NegInf | Finite rat

definition pow2 :: "int \<Rightarrow> rat" where
  "pow2 e = (if 0 \<le> e then 2 ^ nat e else 1 / 2 ^ nat (- e))"

text \<open>The number of binary digits of a natural number.\<close>

fun bitLength :: "nat \<Rightarrow> nat" where
  "bitLength n = (if n = 0 then 0 else Suc (bitLength (n div 2)))"

declare bitLength.simps [simp del]

text \<open>For \<open>0 < x\<close>, the exponent \<open>e\<close> with \<open>2^e \<le> x < 2^(e+1)\<close>.\<close>

definition floorLog2 :: "rat \<Rightarrow> int" where
  "floorLog2 x = (if 1 \<le> x then int (bitLength (nat \<lfloor>x\<rfloor>)) - 1
                  else - int (bitLength (nat (\<lceil>1 / x\<rceil> - 1))))"

text \<open>The nearest integer, a tie to the even one.\<close>

definition roundHalfEven :: "rat \<Rightarrow> int" where
  "roundHalfEven x =
     (let f = \<lfloor>x\<rfloor>; d = x - of_int f
      in if d < 1 / 2 then f
         else if 1 / 2 < d then f + 1
         else if even f then f else f + 1)"

text \<open>The unit of the last place of the double nearest to \<open>x\<close>: \<open>2^e\<close>, with
  \<open>e\<close> the exponent of \<open>x\<close> less 52, not below \<open>-1074\<close>. The double nearest
  to a rational number is the nearest multiple of that unit.\<close>

definition unitInLastPlace :: "rat \<Rightarrow> rat" where
  "unitInLastPlace x = pow2 (max (floorLog2 \<bar>x\<bar> - 52) (- 1074))"

definition roundDouble :: "rat \<Rightarrow> Number" where
  "roundDouble x =
     (if x = 0 then Finite 0
      else (let u = unitInLastPlace x;
                r = of_int (roundHalfEven (\<bar>x\<bar> / u)) * u
            in if pow2 1024 \<le> r then (if 0 < x then PosInf else NegInf)
               else Finite (if 0 < x then r else - r)))"

text \<open>\<^verbatim>\<open>a + b\<close> on numbers.\<close>

fun numberAdd :: "Number \<Rightarrow> Number \<Rightarrow> Number" where
  "numberAdd NaN b = NaN"
| "numberAdd PosInf b = (if b = NaN \<or> b = NegInf then NaN else PosInf)"
| "numberAdd NegInf b = (if b = NaN \<or> b = PosInf then NaN else NegInf)"
| "numberAdd (Finite x) (Finite y) = roundDouble (x + y)"
| "numberAdd (Finite x) b = b"

text \<open>Truthiness of a number: NaN and zero are falsy.\<close>

definition numberTruthy :: "Number \<Rightarrow> bool" where
  "numberTruthy n = (n \<noteq> NaN \<and> n \<noteq> Finite 0)"

section \<open>Data model (types.ts)\<close>

text \<open>
  The declarations of \<^verbatim>\<open>types.ts\<close>. Every interface has a field \<^verbatim>\<open>id\<close>; the
  record fields carry the interface as a prefix. A string is the list of its code
  units. An optional field (\<^verbatim>\<open>cost?: number\<close>) is an option, \<open>None\<close> for undefined.
  The type checker does not keep undefined out of the required fields of an activity:
  \<open>handleAddActivity\<close> and \<open>handleUpdateActivity\<close> build activities by spreading a
  \<^verbatim>\<open>Partial<Activity>\<close>, in which every property may hold undefined. The fields of an
  activity are therefore all options.
\<close>

datatype ActivityType = SIGHTSEEING | FOOD | TRANSPORT | LODGING | OTHER

record Activity =
  act_id :: "string option"
  act_time :: "string option"
  act_title :: "string option"
  act_location :: "string option"
  act_lat :: "Number option"
  act_lng :: "Number option"
  act_notes :: "string option"
  act_cost :: "Number option"
  act_type :: "ActivityType option"

record ItineraryDay =
  day_id :: string
  day_date :: string
  day_activities :: "Activity list"

record Trip =
  trip_id :: string
  trip_title :: string
  trip_destination :: string
  trip_startDate :: string
  trip_endDate :: string
  trip_days :: "ItineraryDay list"
  trip_coverImage :: "string option"
  trip_lat :: "Number option"
  trip_lng :: "Number option"

text \<open>
  \<^verbatim>\<open>Partial<Activity>\<close>: a property is missing (\<open>None\<close>), or it is present and holds
  undefined (\<open>Some None\<close>) or a value (\<open>Some (Some v)\<close>). The object literal
  \<^verbatim>\<open>{ time: args.time }\<close> has the property \<open>time\<close> whatever \<^verbatim>\<open>args.time\<close> is.
\<close>

record ActivityPartial =
  pa_id :: "string option option"
  pa_time :: "string option option"
  pa_title :: "string option option"
  pa_location :: "string option option"
  pa_lat :: "Number option option"
  pa_lng :: "Number option option"
  pa_notes :: "string option option"
  pa_cost :: "Number option option"
  pa_type :: "ActivityType option option"

definition noFields :: ActivityPartial where
  "noFields = \<lparr>pa_id = None, pa_time = None, pa_title = None, pa_location = None,
     pa_lat = None, pa_lng = None, pa_notes = None, pa_cost = None, pa_type = None\<rparr>"

text \<open>The object spread \<^verbatim>\<open>{ ...a, ...updates }\<close>: a property of \<open>updates\<close> that is
  present replaces the one of \<open>a\<close>, also when it holds undefined.\<close>

definition spread :: "Activity \<Rightarrow> ActivityPartial \<Rightarrow> Activity" where
  "spread a u =
     \<lparr>act_id = (case pa_id u of None \<Rightarrow> act_id a | Some v \<Rightarrow> v),
      act_time = (case pa_time u of None \<Rightarrow> act_time a | Some v \<Rightarrow> v),
      act_title = (case pa_title u of None \<Rightarrow> act_title a | Some v \<Rightarrow> v),
      act_location = (case pa_location u of None \<Rightarrow> act_location a | Some v \<Rightarrow> v),
      act_lat = (case pa_lat u of None \<Rightarrow> act_lat a | Some v \<Rightarrow> v),
      act_lng = (case pa_lng u of None \<Rightarrow> act_lng a | Some v \<Rightarrow> v),
      act_notes = (case pa_notes u of None \<Rightarrow> act_notes a | Some v \<Rightarrow> v),
      act_cost = (case pa_cost u of None \<Rightarrow> act_cost a | Some v \<Rightarrow> v),
      act_type = (case pa_type u of None \<Rightarrow> act_type a | Some v \<Rightarrow> v)\<rparr>"

section \<open>Platform functions\<close>

text \<open>
  An exception: the TypeError of reading the property \<open>p\<close> of undefined. No other
  exception arises in the code modelled here.
\<close>

datatype JsError = TypeError string

text \<open>
  \<^verbatim>\<open>String.prototype.localeCompare\<close> is the host's collation. It is a parameter
  \<open>cmp\<close> of every function that sorts; ECMAScript requires it to be a consistent
  comparison function, which gives the two facts below about \<open>cmp a b \<le> 0\<close>.
\<close>

definition consistentComparator :: "(string \<Rightarrow> string \<Rightarrow> int) \<Rightarrow> bool" where
  "consistentComparator cmp \<longleftrightarrow>
     (\<forall>a b. cmp a b \<le> 0 \<or> cmp b a \<le> 0) \<and>
     (\<forall>a b c. cmp a b \<le> 0 \<longrightarrow> cmp b c \<le> 0 \<longrightarrow> cmp a c \<le> 0)"

text \<open>A comparator to run the model with: the order of the code units.\<close>

definition codeUnitCompare :: "string \<Rightarrow> string \<Rightarrow> int" where
  "codeUnitCompare a b = (if a < b then - 1 else if a = b then 0 else 1)"

text \<open>
  \<^verbatim>\<open>Array.prototype.sort(compareFn)\<close>: a stable sort. With a consistent comparator the
  result is determined: the elements in ascending order, equal ones in their former
  order, which is what inserting from the right end produces.
\<close>

primrec insertSorted :: "('a \<Rightarrow> 'a \<Rightarrow> int) \<Rightarrow> 'a \<Rightarrow> 'a list \<Rightarrow> 'a list" where
  "insertSorted c x [] = [x]"
| "insertSorted c x (y # ys) = (if c x y \<le> 0 then x # y # ys else y # insertSorted c x ys)"

definition arraySort :: "('a \<Rightarrow> 'a \<Rightarrow> int) \<Rightarrow> 'a list \<Rightarrow> 'a list" where
  "arraySort c xs = foldr (insertSorted c) xs []"

text \<open>
  The comparator of the handlers, \<^verbatim>\<open>(a,b) => a.time.localeCompare(b.time)\<close>. With
  \<^verbatim>\<open>a.time\<close> undefined the property read throws; an undefined argument of
  \<^verbatim>\<open>localeCompare\<close> is compared as the text \<^verbatim>\<open>undefined\<close>.
\<close>

definition timeKey :: "Activity \<Rightarrow> string" where
  "timeKey a = (case act_time a of None \<Rightarrow> ''undefined'' | Some t \<Rightarrow> t)"

definition compareTime ::
  "(string \<Rightarrow> string \<Rightarrow> int) \<Rightarrow> Activity \<Rightarrow> Activity \<Rightarrow> JsError + int" where
  "compareTime cmp a b =
     (case act_time a of
        None \<Rightarrow> Inl (TypeError ''localeCompare'')
      | Some s \<Rightarrow> Inr (cmp s (timeKey b)))"

definition byTime :: "(string \<Rightarrow> string \<Rightarrow> int) \<Rightarrow> Activity \<Rightarrow> Activity \<Rightarrow> int" where
  "byTime cmp a b = cmp (timeKey a) (timeKey b)"

text \<open>
  \<^verbatim>\<open>xs.sort((a,b) => a.time.localeCompare(b.time))\<close>. An exception of the comparator
  ends the sort and leaves it. Which pairs the comparator is called on is the engine's
  choice; this is the choice of V8 (Node, Chrome), whose sort passes the element that
  comes later in the array as \<open>a\<close>: each element but the first is \<open>a\<close> in some call
  (against its predecessor while the first run is counted, as the pivot of the binary
  insertion, or as the first key of a merge), and in an array of fewer than 64 elements
  the first element is \<open>a\<close> in none. So the sort throws when an element after the
  first has no time; otherwise every call returns what \<open>byTime\<close> returns and the
  result is the sorted array. (In an array of 64 elements and more the first element
  can be \<open>a\<close> during a merge; the model takes it not to be. The results below are
  about arrays in which the first element has a time or which are shorter than that.)
\<close>

definition sortByTime ::
  "(string \<Rightarrow> string \<Rightarrow> int) \<Rightarrow> Activity list \<Rightarrow> JsError + Activity list" where
  "sortByTime cmp xs =
     (if list_ex (\<lambda>a. act_time a = None) (tl xs) then Inl (TypeError ''localeCompare'')
      else Inr (arraySort (byTime cmp) xs))"

text \<open>\<^verbatim>\<open>xs.map(f)\<close> with a callback that may throw: the first exception leaves the
  \<^verbatim>\<open>map\<close>. \<open>thenE\<close> continues with a value unless an exception was thrown.\<close>

fun mapE :: "('a \<Rightarrow> JsError + 'b) \<Rightarrow> 'a list \<Rightarrow> JsError + 'b list" where
  "mapE f [] = Inr []"
| "mapE f (x # xs) =
     (case f x of
        Inl e \<Rightarrow> Inl e
      | Inr y \<Rightarrow> (case mapE f xs of Inl e \<Rightarrow> Inl e | Inr ys \<Rightarrow> Inr (y # ys)))"

definition thenE :: "JsError + 'a \<Rightarrow> ('a \<Rightarrow> 'b) \<Rightarrow> JsError + 'b" where
  "thenE r f = (case r of Inl e \<Rightarrow> Inl e | Inr v \<Rightarrow> Inr (f v))"

text \<open>\<^verbatim>\<open>Number.prototype.toString\<close> on an integer: its decimal digits.\<close>

fun digits :: "nat \<Rightarrow> string" where
  "digits n = (if n < 10 then [''0123456789'' ! n]
               else digits (n div 10) @ [''0123456789'' ! (n mod 10)])"

declare digits.simps [simp del]

definition numberToString :: "int \<Rightarrow> string" where
  "numberToString i = (if i < 0 then CHR ''-'' # digits (nat (- i)) else digits (nat i))"

text \<open>\<^verbatim>\<open>s.slice(from, to)\<close> for \<open>0 \<le> from \<le> to\<close>.\<close>

definition slice :: "nat \<Rightarrow> nat \<Rightarrow> string \<Rightarrow> string" where
  "slice from to s = take (to - from) (drop from s)"

section \<open>Application state and the activity handlers (App.tsx)\<close>

text \<open>
  The state the handlers read and write: the trip list, the selected trip's identifier
  (null before a trip is chosen) and the activity being edited. The identifiers a
  handler is called with come from the user interface or from the assistant's
  arguments, where a missing one is undefined: they are options, and \<^verbatim>\<open>===\<close> holds
  between two of them when both are undefined or both are the same string.
\<close>

record AppState =
  trips :: "Trip list"
  selectedTripId :: "string option"
  editingActivity :: "(string option \<times> Activity) option"

text \<open>\<^verbatim>\<open>trips.find(t => t.id === selectedTripId) || trips[0]\<close>\<close>

definition selectedTrip :: "AppState \<Rightarrow> Trip option" where
  "selectedTrip st =
     (case find (\<lambda>t. Some (trip_id t) = selectedTripId st) (trips st) of
        Some t \<Rightarrow> Some t
      | None \<Rightarrow> (case trips st of [] \<Rightarrow> None | t # _ \<Rightarrow> Some t))"

text \<open>\<^verbatim>\<open>x || 0\<close> on a number, and on an optional number: NaN, zero and undefined
  give 0.\<close>

definition orZero :: "Number \<Rightarrow> Number" where
  "orZero x = (if numberTruthy x then x else Finite 0)"

definition costOrZero :: "Number option \<Rightarrow> Number" where
  "costOrZero c = (case c of None \<Rightarrow> Finite 0 | Some v \<Rightarrow> orZero v)"

text \<open>\<^verbatim>\<open>calculateTotalCost\<close>, on the selected trip (undefined when there is no trip):
  two nested \<^verbatim>\<open>reduce\<close> calls, each starting from 0 and adding from left to right.\<close>

definition calculateTotalCost :: "Trip option \<Rightarrow> Number" where
  "calculateTotalCost sel =
     (case sel of
        None \<Rightarrow> Finite 0
      | Some trip \<Rightarrow>
          orZero (foldl (\<lambda>total day.
                    numberAdd total
                      (orZero (foldl (\<lambda>dayTotal act. numberAdd dayTotal (costOrZero (act_cost act)))
                                 (Finite 0) (day_activities day))))
                  (Finite 0) (trip_days trip)))"

text \<open>
  The costs on which no addition rounds: undefined, NaN (both count as 0) and the whole
  numbers; \<open>wholeValue\<close> is what such a cost adds to the total.
\<close>

definition wholeCost :: "Number option \<Rightarrow> bool" where
  "wholeCost c =
     (case c of
        None \<Rightarrow> True
      | Some NaN \<Rightarrow> True
      | Some (Finite x) \<Rightarrow> of_int \<lfloor>x\<rfloor> = x
      | Some _ \<Rightarrow> False)"

definition wholeValue :: "Number option \<Rightarrow> int" where
  "wholeValue c = (case c of Some (Finite x) \<Rightarrow> \<lfloor>x\<rfloor> | _ \<Rightarrow> 0)"

text \<open>
  The handlers pass an updater to \<^verbatim>\<open>setTrips\<close> and return. React runs the updater
  on the current trip list when it next renders the component (it may run it at once
  as well, to see whether the state changes, and then drops an exception): an
  exception of the updater does not reach the code that called the handler, it is
  thrown by the rendering, and the component has no state after it. The result of a
  handler is the state after its updater (\<open>Inr\<close>) or the exception the updater
  throws (\<open>Inl\<close>).

  \<^verbatim>\<open>handleAddActivity\<close>. \<open>now\<close> is \<^verbatim>\<open>Date.now()\<close> and \<open>rnd\<close> is
  \<^verbatim>\<open>Math.random().toString()\<close>; \<open>activityData\<close> is \<open>None\<close> when the caller passes
  no second argument (the user interface), and then the new activity is opened for
  editing.
\<close>

definition newActivity :: "int \<Rightarrow> string \<Rightarrow> ActivityPartial option \<Rightarrow> Activity" where
  "newActivity now rnd activityData =
     spread \<lparr>act_id = Some (numberToString now @ slice 2 5 rnd),
             act_time = Some ''12:00'',
             act_title = Some ''Nova Atividade'',
             act_location = None, act_lat = None, act_lng = None, act_notes = None,
             act_cost = Some (Finite 0),
             act_type = Some OTHER\<rparr>
            (case activityData of None \<Rightarrow> noFields | Some u \<Rightarrow> u)"

definition handleAddActivity ::
  "(string \<Rightarrow> string \<Rightarrow> int) \<Rightarrow> int \<Rightarrow> string \<Rightarrow> string option \<Rightarrow> ActivityPartial option
     \<Rightarrow> AppState \<Rightarrow> JsError + AppState" where
  "handleAddActivity cmp now rnd dayId activityData st =
     (let new = newActivity now rnd activityData
      in thenE (mapE (\<lambda>trip.
                  if Some (trip_id trip) \<noteq> selectedTripId st then Inr trip
                  else thenE (mapE (\<lambda>day.
                                if Some (day_id day) = dayId
                                then thenE (sortByTime cmp (day_activities day @ [new]))
                                       (\<lambda>sorted. day\<lparr>day_activities := sorted\<rparr>)
                                else Inr day) (trip_days trip))
                         (\<lambda>updatedDays. trip\<lparr>trip_days := updatedDays\<rparr>)) (trips st))
           (\<lambda>newTrips. if activityData = None
                        then st\<lparr>trips := newTrips, editingActivity := Some (dayId, new)\<rparr>
                        else st\<lparr>trips := newTrips\<rparr>))"

definition handleDeleteActivity :: "string option \<Rightarrow> string option \<Rightarrow> AppState \<Rightarrow> AppState" where
  "handleDeleteActivity dayId activityId st =
     st\<lparr>trips := map (\<lambda>trip.
          if Some (trip_id trip) \<noteq> selectedTripId st then trip
          else trip\<lparr>trip_days := map (\<lambda>day.
                 if Some (day_id day) = dayId
                 then day\<lparr>day_activities :=
                        filter (\<lambda>a. act_id a \<noteq> activityId) (day_activities day)\<rparr>
                 else day) (trip_days trip)\<rparr>) (trips st)\<rparr>"

definition handleUpdateActivity ::
  "(string \<Rightarrow> string \<Rightarrow> int) \<Rightarrow> string option \<Rightarrow> string option \<Rightarrow> ActivityPartial
     \<Rightarrow> AppState \<Rightarrow> JsError + AppState" where
  "handleUpdateActivity cmp dayId activityId updates st =
     thenE (mapE (\<lambda>trip.
              if Some (trip_id trip) \<noteq> selectedTripId st then Inr trip
              else thenE (mapE (\<lambda>day.
                            if Some (day_id day) = dayId
                            then (let newActivities =
                                        map (\<lambda>a. if act_id a = activityId then spread a updates
                                                  else a)
                                            (day_activities day)
                                  in thenE (sortByTime cmp newActivities)
                                       (\<lambda>sorted. day\<lparr>day_activities := sorted\<rparr>))
                            else Inr day) (trip_days trip))
                     (\<lambda>updatedDays. trip\<lparr>trip_days := updatedDays\<rparr>)) (trips st))
       (\<lambda>newTrips. st\<lparr>trips := newTrips\<rparr>)"

section \<open>Dates and generateDays (App.tsx)\<close>

text \<open>
  The time value of a \<^verbatim>\<open>Date\<close> is an integer, the milliseconds since 1970-01-01 UTC;
  an invalid date (NaN) is \<open>None\<close>. The functions below are those of the ECMAScript
  specification, with its names. The host's time zone is a constant offset: \<open>tz\<close>
  minutes east of UTC at every instant (no change of daylight saving time).
\<close>

definition msPerDay :: int where
  "msPerDay = 86400000"

definition Day :: "int \<Rightarrow> int" where
  "Day t = t div msPerDay"

definition TimeWithinDay :: "int \<Rightarrow> int" where
  "TimeWithinDay t = t mod msPerDay"

definition DayFromYear :: "int \<Rightarrow> int" where
  "DayFromYear y = 365 * (y - 1970) + (y - 1969) div 4 - (y - 1901) div 100 + (y - 1601) div 400"

definition DaysInYear :: "int \<Rightarrow> int" where
  "DaysInYear y = (if y mod 4 \<noteq> 0 then 365 else if y mod 100 \<noteq> 0 then 366
                   else if y mod 400 \<noteq> 0 then 365 else 366)"

text \<open>The largest year that starts at or before \<open>t\<close>, found from an estimate that is
  off by at most one (lemma \<open>YearFromTime_correct\<close>).\<close>

definition YearFromTime :: "int \<Rightarrow> int" where
  "YearFromTime t =
     (let d = Day t; y = 1970 + (d * 400) div 146097
      in if DayFromYear (y + 1) \<le> d then y + 1 else if d < DayFromYear y then y - 1 else y)"

definition InLeapYear :: "int \<Rightarrow> int" where
  "InLeapYear t = (if DaysInYear (YearFromTime t) = 366 then 1 else 0)"

definition DayWithinYear :: "int \<Rightarrow> int" where
  "DayWithinYear t = Day t - DayFromYear (YearFromTime t)"

definition monthStart :: "int \<Rightarrow> int \<Rightarrow> int" where
  "monthStart leap m =
     (if m = 0 then 0 else if m = 1 then 31 else if m = 2 then 59 + leap
      else if m = 3 then 90 + leap else if m = 4 then 120 + leap
      else if m = 5 then 151 + leap else if m = 6 then 181 + leap
      else if m = 7 then 212 + leap else if m = 8 then 243 + leap
      else if m = 9 then 273 + leap else if m = 10 then 304 + leap else 334 + leap)"

definition MonthFromTime :: "int \<Rightarrow> int" where
  "MonthFromTime t =
     (let d = DayWithinYear t; leap = InLeapYear t
      in if d < 31 then 0 else if d < 59 + leap then 1 else if d < 90 + leap then 2
         else if d < 120 + leap then 3 else if d < 151 + leap then 4
         else if d < 181 + leap then 5 else if d < 212 + leap then 6
         else if d < 243 + leap then 7 else if d < 273 + leap then 8
         else if d < 304 + leap then 9 else if d < 334 + leap then 10 else 11)"

definition DateFromTime :: "int \<Rightarrow> int" where
  "DateFromTime t = DayWithinYear t - monthStart (InLeapYear t) (MonthFromTime t) + 1"

text \<open>\<^verbatim>\<open>MakeDay\<close> finds the day number of the first of the month and adds the date;
  \<^verbatim>\<open>TimeClip\<close> makes a time value beyond the range of \<^verbatim>\<open>Date\<close> invalid.\<close>

definition MakeTime :: "int \<Rightarrow> int \<Rightarrow> int \<Rightarrow> int \<Rightarrow> int" where
  "MakeTime hour minute sec ms = hour * 3600000 + minute * 60000 + sec * 1000 + ms"

definition MakeDay :: "int \<Rightarrow> int \<Rightarrow> int \<Rightarrow> int" where
  "MakeDay year month date =
     (let ym = year + month div 12; mn = month mod 12
      in DayFromYear ym + monthStart (if DaysInYear ym = 366 then 1 else 0) mn + date - 1)"

definition MakeDate :: "int \<Rightarrow> int \<Rightarrow> int" where
  "MakeDate day time = day * msPerDay + time"

definition TimeClip :: "int \<Rightarrow> int option" where
  "TimeClip t = (if \<bar>t\<bar> \<le> 8640000000000000 then Some t else None)"

definition LocalTime :: "int \<Rightarrow> int \<Rightarrow> int" where
  "LocalTime tz t = t + tz * 60000"

definition UTC :: "int \<Rightarrow> int \<Rightarrow> int" where
  "UTC tz t = t - tz * 60000"

text \<open>
  \<^verbatim>\<open>new Date(year, month, date, hours, minutes, seconds)\<close> reads its arguments as
  local time, and maps a year from 0 to 99 to 1900 + year. The getters read local time;
  \<^verbatim>\<open>setDate\<close> keeps the local time of day.
\<close>

definition newDate :: "int \<Rightarrow> int \<Rightarrow> int \<Rightarrow> int \<Rightarrow> int \<Rightarrow> int \<Rightarrow> int \<Rightarrow> int option" where
  "newDate tz year month date hours minutes seconds =
     (let yr = (if 0 \<le> year \<and> year \<le> 99 then 1900 + year else year)
      in TimeClip (UTC tz (MakeDate (MakeDay yr month date) (MakeTime hours minutes seconds 0))))"

definition getFullYear :: "int \<Rightarrow> int \<Rightarrow> int" where
  "getFullYear tz t = YearFromTime (LocalTime tz t)"

definition getMonth :: "int \<Rightarrow> int \<Rightarrow> int" where
  "getMonth tz t = MonthFromTime (LocalTime tz t)"

definition getDate :: "int \<Rightarrow> int \<Rightarrow> int" where
  "getDate tz t = DateFromTime (LocalTime tz t)"

definition setDate :: "int \<Rightarrow> int \<Rightarrow> int \<Rightarrow> int option" where
  "setDate tz t date =
     (let lt = LocalTime tz t
      in TimeClip (UTC tz (MakeDate (MakeDay (YearFromTime lt) (MonthFromTime lt) date)
                                    (TimeWithinDay lt))))"

text \<open>
  \<^verbatim>\<open>new Date(s)\<close> on the value of a date input, \<^verbatim>\<open>YYYY-MM-DD\<close> with an existing
  day: midnight UTC of that day. Hosts differ on other texts; they are read as an
  invalid date here.
\<close>

definition digitValue :: "char \<Rightarrow> nat option" where
  "digitValue c = map_of (zip ''0123456789'' [0, 1, 2, 3, 4, 5, 6, 7, 8, 9]) c"

fun decimalValue :: "nat \<Rightarrow> string \<Rightarrow> nat option" where
  "decimalValue acc [] = Some acc"
| "decimalValue acc (c # cs) =
     (case digitValue c of None \<Rightarrow> None | Some v \<Rightarrow> decimalValue (10 * acc + v) cs)"

definition DaysInMonth :: "int \<Rightarrow> int \<Rightarrow> int" where
  "DaysInMonth y m =
     (if m = 2 then (if DaysInYear y = 366 then 29 else 28)
      else if m = 4 \<or> m = 6 \<or> m = 9 \<or> m = 11 then 30 else 31)"

definition dateParse :: "string \<Rightarrow> int option" where
  "dateParse s =
     (if length s = 10 \<and> s ! 4 = CHR ''-'' \<and> s ! 7 = CHR ''-'' then
        (case (decimalValue 0 (take 4 s), decimalValue 0 (take 2 (drop 5 s)),
               decimalValue 0 (drop 8 s)) of
           (Some y, Some m, Some d) \<Rightarrow>
             if 1 \<le> m \<and> m \<le> 12 \<and> 1 \<le> d \<and> int d \<le> DaysInMonth (int y) (int m)
             then Some (MakeDate (MakeDay (int y) (int m - 1) (int d)) 0)
             else None
         | _ \<Rightarrow> None)
      else None)"

text \<open>\<^verbatim>\<open>d.toISOString().split('T')[0]\<close>: the UTC date of \<open>t\<close>, the year with four
  digits from 0 to 9999 and with a sign and six digits outside.\<close>

definition padStart :: "nat \<Rightarrow> string \<Rightarrow> string" where
  "padStart n s = replicate (n - length s) CHR ''0'' @ s"

definition isoDate :: "int \<Rightarrow> string" where
  "isoDate t =
     (let y = YearFromTime t
      in (if 0 \<le> y \<and> y \<le> 9999 then padStart 4 (digits (nat y))
          else (if y < 0 then ''-'' else ''+'') @ padStart 6 (digits (nat \<bar>y\<bar>)))
         @ ''-'' @ padStart 2 (digits (nat (MonthFromTime t + 1)))
         @ ''-'' @ padStart 2 (digits (nat (DateFromTime t))))"

text \<open>The object pushed in the loop body, for the time value of \<open>current\<close>.\<close>

definition newDay :: "int \<Rightarrow> ItineraryDay" where
  "newDay current = \<lparr>day_id = ''day-'' @ numberToString current,
                     day_date = isoDate current,
                     day_activities = []\<rparr>"

text \<open>
  The \<^verbatim>\<open>while\<close> loop of \<open>generateDays\<close>. A comparison with an invalid date is
  false, which ends the loop. Each turn moves \<open>current\<close> one day ahead (or makes it
  invalid, at the end of the range), so the loop terminates.
\<close>

function daysLoop ::
  "int \<Rightarrow> int option \<Rightarrow> int option \<Rightarrow> ItineraryDay list \<Rightarrow> ItineraryDay list" where
  "daysLoop tz current endLimit days =
     (case (current, endLimit) of
        (Some c, Some e) \<Rightarrow>
          if c \<le> e
          then daysLoop tz (setDate tz c (getDate tz c + 1)) endLimit
                 (days @ [newDay c])
          else days
      | _ \<Rightarrow> days)"
  by pat_completeness auto
termination
proof (relation "measure (\<lambda>(tz, current, endLimit, days).
         case (current, endLimit) of (Some c, Some e) \<Rightarrow> nat (e - c + 1) | _ \<Rightarrow> 0)")
  show "wf (measure (\<lambda>(tz, current, endLimit, days).
         case (current, endLimit) of (Some c, Some e) \<Rightarrow> nat (e - c + 1) | _ \<Rightarrow> 0))"
    by simp
next
  fix tz :: int and current endLimit :: "int option" and days :: "ItineraryDay list"
    and x y c e
  assume a: "(x, y) = (current, endLimit)" "x = Some c" "y = Some e" "c \<le> e"
  let ?lt = "LocalTime tz c"
  have "MonthFromTime ?lt div 12 = 0" "MonthFromTime ?lt mod 12 = MonthFromTime ?lt"
    by (simp_all add: MonthFromTime_def Let_def)
  then have "MakeDay (YearFromTime ?lt) (MonthFromTime ?lt) (DateFromTime ?lt + 1) = Day ?lt + 1"
    by (simp add: MakeDay_def DateFromTime_def DayWithinYear_def InLeapYear_def)
  then have "setDate tz c (getDate tz c + 1) = TimeClip (c + msPerDay)"
    by (simp add: setDate_def getDate_def MakeDate_def Day_def TimeWithinDay_def UTC_def
        LocalTime_def algebra_simps)
  with a show "((tz, setDate tz c (getDate tz c + 1), endLimit, days @ [newDay c]),
              (tz, current, endLimit, days))
            \<in> measure (\<lambda>(tz, current, endLimit, days).
         case (current, endLimit) of (Some c, Some e) \<Rightarrow> nat (e - c + 1) | _ \<Rightarrow> 0)"
    by (auto simp: TimeClip_def msPerDay_def)
qed

declare daysLoop.simps [simp del]

text \<open>\<^verbatim>\<open>new Date(d.getFullYear(), d.getMonth(), d.getDate(), 12, 0, 0)\<close>\<close>

definition localNoon :: "int \<Rightarrow> int option \<Rightarrow> int option" where
  "localNoon tz d =
     (case d of
        None \<Rightarrow> None
      | Some t \<Rightarrow> newDate tz (getFullYear tz t) (getMonth tz t) (getDate tz t) 12 0 0)"

definition generateDays :: "int \<Rightarrow> string \<Rightarrow> string \<Rightarrow> ItineraryDay list" where
  "generateDays tz start end =
     (let startDate = dateParse start;
          endDate = dateParse end;
          current = localNoon tz startDate;
          endLimit = localNoon tz endDate
      in daysLoop tz current endLimit [])"

text \<open>
  What the results about \<open>generateDays\<close> are stated with: the number of turns of the
  loop from \<open>c\<close> to \<open>e\<close>; a local year that the \<^verbatim>\<open>Date\<close> constructor leaves as it
  is; the distance from midnight UTC of a day to noon of the local day that holds that
  instant; and the number of days by which the UTC date of that noon differs.
\<close>

definition loopTurns :: "int \<Rightarrow> int \<Rightarrow> nat" where
  "loopTurns c e = (if c \<le> e then nat ((e - c) div msPerDay + 1) else 0)"

definition plainYear :: "int \<Rightarrow> int \<Rightarrow> bool" where
  "plainYear tz t = (\<not> (0 \<le> getFullYear tz t \<and> getFullYear tz t \<le> 99))"

definition noonOffset :: "int \<Rightarrow> int" where
  "noonOffset tz = Day (tz * 60000) * msPerDay + 43200000 - tz * 60000"

definition dateShift :: "int \<Rightarrow> int" where
  "dateShift tz = Day (noonOffset tz)"

section \<open>The sort invariant\<close>

text \<open>
  A day is sorted by time when each of its activities is in order with every later
  one: both have a time, and \<open>localeCompare\<close> does not put the later time first. An
  activity without a time is in order with no other activity; a day of one activity is
  sorted whatever the activity holds.
\<close>

definition inOrder :: "(string \<Rightarrow> string \<Rightarrow> int) \<Rightarrow> Activity \<Rightarrow> Activity \<Rightarrow> bool" where
  "inOrder cmp a b =
     (case act_time a of
        None \<Rightarrow> False
      | Some s \<Rightarrow> (case act_time b of None \<Rightarrow> False | Some t \<Rightarrow> cmp s t \<le> 0))"

definition sortedByTime :: "(string \<Rightarrow> string \<Rightarrow> int) \<Rightarrow> Activity list \<Rightarrow> bool" where
  "sortedByTime cmp xs = sorted_wrt (inOrder cmp) xs"

definition tripSorted :: "(string \<Rightarrow> string \<Rightarrow> int) \<Rightarrow> Trip \<Rightarrow> bool" where
  "tripSorted cmp trip = list_all (\<lambda>day. sortedByTime cmp (day_activities day)) (trip_days trip)"

definition allSorted :: "(string \<Rightarrow> string \<Rightarrow> int) \<Rightarrow> AppState \<Rightarrow> bool" where
  "allSorted cmp st = list_all (tripSorted cmp) (trips st)"

text \<open>
  What the invariant is stated about. An operation is one call of a handler;
  \<open>keepsSorted\<close> compares the trip list before and after, trip by trip: a trip whose
  days were sorted is still sorted. \<open>noMatch\<close> says that an identifier pair names no
  activity of a trip: the days called \<open>dayId\<close> (if any) hold no activity called
  \<open>activityId\<close>. \<open>selectedTrips\<close> are the trips the handlers touch.
\<close>

datatype Operation =
    AddActivity int string "string option" "ActivityPartial option"
  | UpdateActivity "string option" "string option" ActivityPartial
  | RemoveActivity "string option" "string option"

fun applyOperation ::
  "(string \<Rightarrow> string \<Rightarrow> int) \<Rightarrow> AppState \<Rightarrow> Operation \<Rightarrow> JsError + AppState" where
  "applyOperation cmp st (AddActivity now rnd dayId activityData) =
     handleAddActivity cmp now rnd dayId activityData st"
| "applyOperation cmp st (UpdateActivity dayId activityId updates) =
     handleUpdateActivity cmp dayId activityId updates st"
| "applyOperation cmp st (RemoveActivity dayId activityId) =
     Inr (handleDeleteActivity dayId activityId st)"

fun applyOperations ::
  "(string \<Rightarrow> string \<Rightarrow> int) \<Rightarrow> AppState \<Rightarrow> Operation list \<Rightarrow> JsError + AppState" where
  "applyOperations cmp st [] = Inr st"
| "applyOperations cmp st (op # ops) =
     (case applyOperation cmp st op of
        Inl e \<Rightarrow> Inl e
      | Inr st' \<Rightarrow> applyOperations cmp st' ops)"

definition keepsSorted :: "(string \<Rightarrow> string \<Rightarrow> int) \<Rightarrow> AppState \<Rightarrow> AppState \<Rightarrow> bool" where
  "keepsSorted cmp st st' =
     list_all2 (\<lambda>t t'. tripSorted cmp t \<longrightarrow> tripSorted cmp t') (trips st) (trips st')"

definition selectedTrips :: "AppState \<Rightarrow> Trip list" where
  "selectedTrips st = filter (\<lambda>t. Some (trip_id t) = selectedTripId st) (trips st)"

text \<open>
  The inputs on which the claim about the order can be read with the types of
  \<^verbatim>\<open>types.ts\<close>: every stored activity has a time, and the fields of an operation
  do not set the time to undefined.
\<close>

definition hasTime :: "Activity \<Rightarrow> bool" where
  "hasTime a = (act_time a \<noteq> None)"

definition timesDefined :: "AppState \<Rightarrow> bool" where
  "timesDefined st =
     list_all (\<lambda>trip. list_all (\<lambda>day. list_all hasTime (day_activities day)) (trip_days trip))
              (trips st)"

definition timeGiven :: "ActivityPartial \<Rightarrow> bool" where
  "timeGiven u = (pa_time u \<noteq> Some None)"

fun operationTimed :: "Operation \<Rightarrow> bool" where
  "operationTimed (AddActivity now rnd dayId activityData) =
     (case activityData of None \<Rightarrow> True | Some u \<Rightarrow> timeGiven u)"
| "operationTimed (UpdateActivity dayId activityId updates) = timeGiven updates"
| "operationTimed (RemoveActivity dayId activityId) = True"

definition noMatch :: "string option \<Rightarrow> string option \<Rightarrow> Trip \<Rightarrow> bool" where
  "noMatch dayId activityId trip =
     list_all (\<lambda>day. Some (day_id day) = dayId \<longrightarrow>
                 list_all (\<lambda>a. act_id a \<noteq> activityId) (day_activities day))
              (trip_days trip)"

section \<open>The assistant bridge (ChatPanel.tsx, executeTools)\<close>

text \<open>
  A value as \<^verbatim>\<open>JSON.parse\<close> and \<^verbatim>\<open>response.json()\<close> return it. An object is the
  list of its own properties, one entry for each key.
\<close>

datatype json =
    JNull | JBool bool | JNum Number | JStr string | JArr "json list" | JObj "(string \<times> json) list"

text \<open>\<^verbatim>\<open>v.key\<close> for an own property of an object; undefined (\<open>None\<close>) for a key the
  object does not have. Properties of other values and inherited ones are not modelled.\<close>

fun getProp :: "json \<Rightarrow> string \<Rightarrow> json option" where
  "getProp (JObj kvs) key = map_of kvs key"
| "getProp _ key = None"

text \<open>Truthiness, of a value and of a property that may be undefined.\<close>

fun truthy :: "json \<Rightarrow> bool" where
  "truthy JNull = False"
| "truthy (JBool b) = b"
| "truthy (JNum x) = numberTruthy x"
| "truthy (JStr s) = (s \<noteq> [])"
| "truthy (JArr _) = True"
| "truthy (JObj _) = True"

definition truthyProp :: "json option \<Rightarrow> bool" where
  "truthyProp p = (case p of None \<Rightarrow> False | Some v \<Rightarrow> truthy v)"

text \<open>
  The arguments of a tool call, typed as the tool declarations of the assistant service
  type them; every property may be undefined. \<open>id\<close>, \<open>name\<close> and \<open>args\<close> of a call
  are optional in the assistant library's type.
\<close>

record ToolArgs =
  arg_dayId :: "string option"
  arg_activityId :: "string option"
  arg_title :: "string option"
  arg_time :: "string option"
  arg_type :: "ActivityType option"
  arg_location :: "string option"
  arg_notes :: "string option"
  arg_cost :: "Number option"
  arg_lat :: "Number option"
  arg_lng :: "Number option"
  arg_baseCurrency :: "string option"
  arg_targetCurrency :: "string option"

record FunctionCall =
  fc_id :: "string option"
  fc_name :: "string option"
  fc_args :: "ToolArgs option"

text \<open>One entry of \<open>responses\<close>; \<open>fr_response\<close> is the text of \<^verbatim>\<open>{ result: ... }\<close>.\<close>

record FunctionResponse =
  fr_id :: "string option"
  fr_name :: "string option"
  fr_response :: string

text \<open>
  What the bridge takes from its host: the collation, the clock and the random numbers
  (one reading for each call of a batch, by its position), the rate service
  (\<^verbatim>\<open>fetch(url)\<close> followed by \<^verbatim>\<open>response.json()\<close>, \<open>None\<close> when either fails),
  \<^verbatim>\<open>JSON.stringify\<close> on a trip, the text of a number in a template literal, and the
  message of the TypeError for reading the property \<open>p\<close> of undefined.
\<close>

record Host =
  localeCompare :: "string \<Rightarrow> string \<Rightarrow> int"
  dateNow :: "nat \<Rightarrow> int"
  mathRandom :: "nat \<Rightarrow> string"
  fetchJson :: "string \<Rightarrow> json option"
  stringifyTrip :: "Trip \<Rightarrow> string"
  numberText :: "Number \<Rightarrow> string"
  typeErrorMessage :: "string \<Rightarrow> string"

text \<open>\<^verbatim>\<open>s || d\<close> on an optional string, and the text of a value inside a template
  literal.\<close>

definition orDefault :: "string option \<Rightarrow> string \<Rightarrow> string" where
  "orDefault s d = (case s of None \<Rightarrow> d | Some v \<Rightarrow> if v = [] then d else v)"

definition joinComma :: "string list \<Rightarrow> string" where
  "joinComma xs = (case xs of [] \<Rightarrow> [] | y # ys \<Rightarrow> foldl (\<lambda>acc z. acc @ '','' @ z) y ys)"

fun templateText :: "(Number \<Rightarrow> string) \<Rightarrow> json \<Rightarrow> string" where
  "templateText num JNull = ''null''"
| "templateText num (JBool b) = (if b then ''true'' else ''false'')"
| "templateText num (JNum x) = num x"
| "templateText num (JStr s) = s"
| "templateText num (JArr vs) =
     joinComma (map (\<lambda>v. if v = JNull then [] else templateText num v) vs)"
| "templateText num (JObj kvs) = ''[object Object]''"

definition templateProp :: "(Number \<Rightarrow> string) \<Rightarrow> json option \<Rightarrow> string" where
  "templateProp num p = (case p of None \<Rightarrow> ''undefined'' | Some v \<Rightarrow> templateText num v)"

definition templateString :: "string option \<Rightarrow> string" where
  "templateString s = (case s of None \<Rightarrow> ''undefined'' | Some v \<Rightarrow> v)"

text \<open>
  The case \<^verbatim>\<open>get_exchange_rate\<close>, with its own try and catch: reading a property of
  undefined arguments and a failing request both end in the catch. The letters of the
  messages outside ASCII are written by their code.
\<close>

definition exchangeRate :: "Host \<Rightarrow> ToolArgs option \<Rightarrow> string" where
  "exchangeRate h a =
     (case a of
        None \<Rightarrow> ''Falha na conex'' @ [CHR 0xE3] @ ''o com API de c'' @ [CHR 0xE2] @ ''mbio.''
      | Some args \<Rightarrow>
          (let base = orDefault (arg_baseCurrency args) ''USD'';
               target = orDefault (arg_targetCurrency args) ''BRL''
           in case fetchJson h (''https://open.er-api.com/v6/latest/'' @ base) of
                None \<Rightarrow> ''Falha na conex'' @ [CHR 0xE3] @ ''o com API de c'' @ [CHR 0xE2] @ ''mbio.''
              | Some data \<Rightarrow>
                  (let rate = (case getProp data ''rates'' of
                                 None \<Rightarrow> None
                               | Some rates \<Rightarrow> if truthy rates then getProp rates target else None)
                   in if truthy data \<and> truthyProp rate
                      then ''Taxa de c'' @ [CHR 0xE2] @ ''mbio: 1 '' @ base @ '' = ''
                           @ templateProp (numberText h) rate
                           @ '' '' @ target @ ''. Data: ''
                           @ templateProp (numberText h) (getProp data ''time_last_update_utc'')
                      else ''Erro ao obter taxa de c'' @ [CHR 0xE2] @ ''mbio.'')))"

text \<open>
  The object literals of the cases \<^verbatim>\<open>add_activity\<close> and \<^verbatim>\<open>update_activity\<close>. The
  first has its eight properties whatever the arguments hold: an argument that the
  assistant left out is a property holding undefined. The second spreads a property
  in only if its guard holds: \<^verbatim>\<open>args.x !== undefined\<close> for the numbers, the
  truthiness of \<^verbatim>\<open>args.x\<close> for the strings.
\<close>

definition addFields :: "ToolArgs \<Rightarrow> ActivityPartial" where
  "addFields args =
     \<lparr>pa_id = None,
      pa_time = Some (arg_time args),
      pa_title = Some (arg_title args),
      pa_location = Some (arg_location args),
      pa_lat = Some (arg_lat args),
      pa_lng = Some (arg_lng args),
      pa_notes = Some (arg_notes args),
      pa_cost = Some (arg_cost args),
      pa_type = Some (arg_type args)\<rparr>"

definition whenTruthy :: "string option \<Rightarrow> string option" where
  "whenTruthy s = (case s of None \<Rightarrow> None | Some v \<Rightarrow> if v = [] then None else Some v)"

definition updateFields :: "ToolArgs \<Rightarrow> ActivityPartial" where
  "updateFields args =
     \<lparr>pa_id = None,
      pa_time = map_option Some (whenTruthy (arg_time args)),
      pa_title = map_option Some (whenTruthy (arg_title args)),
      pa_location = map_option Some (whenTruthy (arg_location args)),
      pa_lat = map_option Some (arg_lat args),
      pa_lng = map_option Some (arg_lng args),
      pa_notes = map_option Some (whenTruthy (arg_notes args)),
      pa_cost = map_option Some (arg_cost args),
      pa_type = None\<rparr>"

text \<open>
  The \<^verbatim>\<open>switch\<close> inside the outer try: the result text and the updater that the
  handler called passes to \<^verbatim>\<open>setTrips\<close> (\<open>Inr\<close>, which changes nothing, where no
  handler is called), or the exception. \<open>tripRef\<close> is the trip of the last
  rendering, \<open>k\<close> the position of the call in the batch. With undefined \<open>args\<close>
  the first property read (\<^verbatim>\<open>args.dayId\<close>) throws before a handler runs. A handler
  returns before its updater runs, so an exception of the updater is not one of the
  \<^verbatim>\<open>switch\<close>: the result text is the one of success.
\<close>

definition runTool ::
  "Host \<Rightarrow> Trip \<Rightarrow> nat \<Rightarrow> FunctionCall
     \<Rightarrow> JsError + (string \<times> (AppState \<Rightarrow> JsError + AppState))" where
  "runTool h tripRef k call =
     (if fc_name call = Some ''get_exchange_rate'' then
        Inr (exchangeRate h (fc_args call), Inr)
      else if fc_name call = Some ''add_activity'' then
        (case fc_args call of
           None \<Rightarrow> Inl (TypeError ''dayId'')
         | Some args \<Rightarrow>
             Inr (''Atividade '' @ [CHR 0x27] @ templateString (arg_title args) @ [CHR 0x27]
                    @ '' adicionada com sucesso.'',
                  handleAddActivity (localeCompare h) (dateNow h k) (mathRandom h k)
                    (arg_dayId args) (Some (addFields args))))
      else if fc_name call = Some ''update_activity'' then
        (case fc_args call of
           None \<Rightarrow> Inl (TypeError ''dayId'')
         | Some args \<Rightarrow>
             Inr (''Atividade atualizada.'',
                  handleUpdateActivity (localeCompare h) (arg_dayId args) (arg_activityId args)
                    (updateFields args)))
      else if fc_name call = Some ''remove_activity'' then
        (case fc_args call of
           None \<Rightarrow> Inl (TypeError ''dayId'')
         | Some args \<Rightarrow>
             Inr (''Atividade removida.'',
                  (\<lambda>st. Inr (handleDeleteActivity (arg_dayId args) (arg_activityId args) st))))
      else if fc_name call = Some ''get_trip_details'' then
        Inr (stringifyTrip h tripRef, Inr)
      else Inr (''Ferramenta desconhecida.'', Inr))"

text \<open>
  The state that the next rendering computes from the updaters passed so far: they run
  in the order they were passed, and once one has thrown no state follows.
\<close>

definition thenUpdate ::
  "JsError + AppState \<Rightarrow> (AppState \<Rightarrow> JsError + AppState) \<Rightarrow> JsError + AppState" where
  "thenUpdate pending updater = (case pending of Inl e \<Rightarrow> Inl e | Inr st \<Rightarrow> updater st)"

text \<open>One turn of the \<^verbatim>\<open>for\<close> loop: the outer catch turns an exception into a result
  text (\<^verbatim>\<open>e.message\<close>), and the response takes the call's id and name. (The flag
  \<^verbatim>\<open>processingTool\<close> and the console output are display only and are left out.)\<close>

definition executeTool ::
  "Host \<Rightarrow> Trip \<Rightarrow> nat \<Rightarrow> FunctionCall \<Rightarrow> JsError + AppState
     \<Rightarrow> FunctionResponse \<times> (JsError + AppState)" where
  "executeTool h tripRef k call pending =
     (case runTool h tripRef k call of
        Inl (TypeError p) \<Rightarrow>
          (\<lparr>fr_id = fc_id call, fr_name = fc_name call,
            fr_response = ''Erro ao executar: '' @ typeErrorMessage h p\<rparr>, pending)
      | Inr (result, updater) \<Rightarrow>
          (\<lparr>fr_id = fc_id call, fr_name = fc_name call, fr_response = result\<rparr>,
           thenUpdate pending updater))"

fun toolLoop ::
  "Host \<Rightarrow> Trip \<Rightarrow> nat \<Rightarrow> FunctionCall list \<Rightarrow> FunctionResponse list \<times> (JsError + AppState)
     \<Rightarrow> FunctionResponse list \<times> (JsError + AppState)" where
  "toolLoop h tripRef k [] (responses, pending) = (responses, pending)"
| "toolLoop h tripRef k (call # calls) (responses, pending) =
     (case executeTool h tripRef k call pending of
        (r, pending') \<Rightarrow> toolLoop h tripRef (Suc k) calls (responses @ [r], pending'))"

text \<open>\<open>executeTools\<close> on the state \<open>st\<close> of the last rendering: the responses, and
  the state of the next rendering.\<close>

definition executeTools ::
  "Host \<Rightarrow> Trip \<Rightarrow> FunctionCall list \<Rightarrow> AppState
     \<Rightarrow> FunctionResponse list \<times> (JsError + AppState)" where
  "executeTools h tripRef functionCalls st = toolLoop h tripRef 0 functionCalls ([], Inr st)"

definition knownTools :: "string list" where
  "knownTools = [''add_activity'', ''update_activity'', ''remove_activity'',
                 ''get_trip_details'', ''get_exchange_rate'']"

definition unknownTool :: "FunctionCall \<Rightarrow> bool" where
  "unknownTool call = (case fc_name call of None \<Rightarrow> True | Some n \<Rightarrow> n \<notin> set knownTools)"

text \<open>A response answers a call: it carries the call's id and name, and the generic
  failure text when the call names no tool.\<close>

definition answers :: "FunctionCall \<Rightarrow> FunctionResponse \<Rightarrow> bool" where
  "answers call r \<longleftrightarrow> fr_id r = fc_id call \<and> fr_name r = fc_name call
     \<and> (unknownTool call \<longrightarrow> fr_response r = ''Ferramenta desconhecida.'')"

section \<open>Local persistence (App.tsx, the two effects on the trip list)\<close>

text \<open>
  The effects see the trips as the values they are read from and written to storage:
  whatever passes \<open>isValidTrip\<close> is taken for a \<open>Trip\<close> without a further check.
  \<open>storage\<close> is the entry under the key \<^verbatim>\<open>viajaai_trips\<close>, \<open>None\<close> when there is none.
\<close>

definition isValidTrip :: "json \<Rightarrow> bool" where
  "isValidTrip trip =
     ((case trip of JNull \<Rightarrow> True | JArr _ \<Rightarrow> True | JObj _ \<Rightarrow> True | _ \<Rightarrow> False)
      \<and> trip \<noteq> JNull
      \<and> (case getProp trip ''id'' of Some (JStr _) \<Rightarrow> True | _ \<Rightarrow> False)
      \<and> (case getProp trip ''days'' of Some (JArr _) \<Rightarrow> True | _ \<Rightarrow> False))"

record StoreState =
  storage :: "string option"
  storedTrips :: "json list"
  storedSelectedTripId :: "json option"
  lastMapCenter :: "json \<times> json option"

text \<open>The state when the component is mounted.\<close>

definition startup :: "string option \<Rightarrow> StoreState" where
  "startup saved = \<lparr>storage = saved, storedTrips = [], storedSelectedTripId = None,
     lastMapCenter = (JNum (roundDouble (- 23.5505)), Some (JNum (roundDouble (- 46.6333))))\<rparr>"

text \<open>
  The load effect. \<open>parse\<close> is \<^verbatim>\<open>JSON.parse\<close>, \<open>None\<close> where it throws; nothing else
  inside the try can throw, and the catch removes the entry.
\<close>

definition loadEffect :: "(string \<Rightarrow> json option) \<Rightarrow> StoreState \<Rightarrow> StoreState" where
  "loadEffect parse st =
     (case storage st of
        None \<Rightarrow> st
      | Some savedTrips \<Rightarrow>
          if savedTrips = [] then st
          else (case parse savedTrips of
                  None \<Rightarrow> st\<lparr>storage := None\<rparr>
                | Some (JArr parsed) \<Rightarrow>
                    if length parsed > 0 then
                      (let validTrips = filter isValidTrip parsed
                       in case validTrips of
                            [] \<Rightarrow> st
                          | first # _ \<Rightarrow>
                              (let st' = st\<lparr>storedTrips := validTrips,
                                            storedSelectedTripId := getProp first ''id''\<rparr>
                               in case getProp first ''lat'' of
                                    None \<Rightarrow> st'
                                  | Some lat \<Rightarrow>
                                      if truthy lat
                                      then st'\<lparr>lastMapCenter := (lat, getProp first ''lng'')\<rparr>
                                      else st'))
                    else st
                | Some _ \<Rightarrow> st))"

text \<open>The persist effect, run after every change of the trip list.\<close>

definition persistEffect :: "(json list \<Rightarrow> string) \<Rightarrow> StoreState \<Rightarrow> StoreState" where
  "persistEffect stringify st =
     (if length (storedTrips st) > 0
      then st\<lparr>storage := Some (stringify (storedTrips st))\<rparr>
      else st\<lparr>storage := None\<rparr>)"










section \<open>Example data\<close>

definition exA :: Activity where
  "exA = \<lparr>act_id = Some ''a1'', act_time = Some ''09:00'', act_title = Some ''Museu'',
     act_location = None, act_lat = None, act_lng = None, act_notes = None,
     act_cost = Some (Finite 100), act_type = Some SIGHTSEEING\<rparr>"

definition exB :: Activity where
  "exB = \<lparr>act_id = Some ''a2'', act_time = Some ''13:30'', act_title = Some ''Almoco'',
     act_location = None, act_lat = None, act_lng = None, act_notes = None, act_cost = None,
     act_type = Some FOOD\<rparr>"

definition exTrip :: Trip where
  "exTrip = \<lparr>trip_id = ''trip-1'', trip_title = ''Rio'', trip_destination = ''Rio'',
     trip_startDate = ''2024-03-10'', trip_endDate = ''2024-03-10'',
     trip_days = [\<lparr>day_id = ''day-1'', day_date = ''2024-03-10'',
                   day_activities = [exA, exB]\<rparr>],
     trip_coverImage = None, trip_lat = None, trip_lng = None\<rparr>"

definition exState :: AppState where
  "exState = \<lparr>trips = [exTrip], selectedTripId = Some ''trip-1'', editingActivity = None\<rparr>"

definition exOps :: "Operation list" where
  "exOps =
     [AddActivity 1700000000000 ''0.4821'' (Some ''day-1'')
        (Some (noFields\<lparr>pa_time := Some (Some ''08:15''), pa_title := Some (Some ''Cafe'')\<rparr>)),
      UpdateActivity (Some ''day-1'') (Some ''a1'') (noFields\<lparr>pa_time := Some (Some ''15:00'')\<rparr>),
      RemoveActivity (Some ''day-1'') (Some ''a2'')]"

definition exHost :: Host where
  "exHost = \<lparr>localeCompare = codeUnitCompare,
     dateNow = (\<lambda>k. 1700000000000 + int k),
     mathRandom = (\<lambda>k. ''0.4821''),
     fetchJson = (\<lambda>url. None),
     stringifyTrip = trip_id,
     numberText = (\<lambda>x. ''0''),
     typeErrorMessage = (\<lambda>p. ''Cannot read properties of undefined (reading ''
                              @ [CHR 0x27] @ p @ [CHR 0x27] @ '')'')\<rparr>"

definition noArgs :: ToolArgs where
  "noArgs = \<lparr>arg_dayId = None, arg_activityId = None, arg_title = None, arg_time = None,
     arg_type = None, arg_location = None, arg_notes = None, arg_cost = None, arg_lat = None,
     arg_lng = None, arg_baseCurrency = None, arg_targetCurrency = None\<rparr>"

definition exCalls :: "FunctionCall list" where
  "exCalls =
     [\<lparr>fc_id = Some ''c1'', fc_name = Some ''book_flight'', fc_args = None\<rparr>,
      \<lparr>fc_id = Some ''c2'', fc_name = Some ''remove_activity'',
        fc_args = Some (noArgs\<lparr>arg_dayId := Some ''day-1'', arg_activityId := Some ''a2''\<rparr>)\<rparr>,
      \<lparr>fc_id = None, fc_name = None, fc_args = Some noArgs\<rparr>,
      \<lparr>fc_id = Some ''c4'', fc_name = Some ''update_activity'', fc_args = None\<rparr>]"

definition exUpdateArgs :: ToolArgs where
  "exUpdateArgs = noArgs\<lparr>arg_dayId := Some ''day-1'', arg_activityId := Some ''a1'',
     arg_time := Some [], arg_title := Some ''Museu Nacional'', arg_cost := Some (Finite 0)\<rparr>"

text \<open>Two trips with the same three costs 0.1, 0.2 and 0.3 (the doubles that these
  literals denote) in the same order, split into days in two ways.\<close>

definition exCost :: "string \<Rightarrow> rat \<Rightarrow> Activity" where
  "exCost i c = exB\<lparr>act_id := Some i, act_cost := Some (roundDouble c)\<rparr>"

definition exSplitEarly :: Trip where
  "exSplitEarly = exTrip\<lparr>trip_days :=
     [\<lparr>day_id = ''day-1'', day_date = ''2024-03-10'',
        day_activities = [exCost ''b1'' (1 / 10)]\<rparr>,
      \<lparr>day_id = ''day-2'', day_date = ''2024-03-11'',
        day_activities = [exCost ''b2'' (2 / 10), exCost ''b3'' (3 / 10)]\<rparr>]\<rparr>"

definition exSplitLate :: Trip where
  "exSplitLate = exTrip\<lparr>trip_days :=
     [\<lparr>day_id = ''day-1'', day_date = ''2024-03-10'',
        day_activities = [exCost ''b1'' (1 / 10), exCost ''b2'' (2 / 10)]\<rparr>,
      \<lparr>day_id = ''day-2'', day_date = ''2024-03-11'',
        day_activities = [exCost ''b3'' (3 / 10)]\<rparr>]\<rparr>"

text \<open>An add_activity call of the assistant that names a day and a title and leaves the
  time out.\<close>

definition exAddArgs :: ToolArgs where
  "exAddArgs = noArgs\<lparr>arg_dayId := Some ''day-1'', arg_title := Some ''Cafe''\<rparr>"









section \<open>Sorting\<close>

lemma set_insertSorted: "set (insertSorted c x zs) = insert x (set zs)"
  by (induction zs) auto

lemma set_arraySort: "set (arraySort c xs) = set xs"
  unfolding arraySort_def by (induction xs) (simp_all add: set_insertSorted)

lemma sorted_insertSorted:
  assumes tot: "\<And>a b. c a b \<le> 0 \<or> c b a \<le> 0"
      and tr: "\<And>a b d. c a b \<le> 0 \<Longrightarrow> c b d \<le> 0 \<Longrightarrow> c a d \<le> 0"
  shows "sorted_wrt (\<lambda>a b. c a b \<le> 0) xs
           \<Longrightarrow> sorted_wrt (\<lambda>a b. c a b \<le> 0) (insertSorted c x xs)"
proof (induction xs)
  case Nil
  show ?case by simp
next
  case (Cons y ys)
  show ?case
  proof (cases "c x y \<le> 0")
    case True
    with Cons.prems show ?thesis by (auto intro: tr)
  next
    case False
    with tot[of x y] have "c y x \<le> 0" by simp
    with False Cons show ?thesis by (auto simp: set_insertSorted)
  qed
qed

lemma sorted_arraySort:
  assumes tot: "\<And>a b. c a b \<le> 0 \<or> c b a \<le> 0"
      and tr: "\<And>a b d. c a b \<le> 0 \<Longrightarrow> c b d \<le> 0 \<Longrightarrow> c a d \<le> 0"
  shows "sorted_wrt (\<lambda>a b. c a b \<le> 0) (arraySort c xs)"
  unfolding arraySort_def
  by (induction xs) (simp_all add: sorted_insertSorted[OF tot tr])

text \<open>Sorting a sorted array changes nothing; no property of the comparator is used.\<close>

lemma arraySort_sorted_id:
  "sorted_wrt (\<lambda>a b. c a b \<le> 0) xs \<Longrightarrow> arraySort c xs = xs"
  unfolding arraySort_def
proof (induction xs)
  case Nil
  show ?case by simp
next
  case (Cons x xs)
  then have "foldr (insertSorted c) xs [] = xs" by simp
  moreover have "insertSorted c x xs = x # xs"
    using Cons.prems by (cases xs) auto
  ultimately show ?case by simp
qed

lemma byTime_consistent:
  assumes "consistentComparator cmp"
  shows "byTime cmp a b \<le> 0 \<or> byTime cmp b a \<le> 0"
    and "byTime cmp a b \<le> 0 \<Longrightarrow> byTime cmp b d \<le> 0 \<Longrightarrow> byTime cmp a d \<le> 0"
  using assms unfolding consistentComparator_def byTime_def by blast+

text \<open>Where the time of \<open>a\<close> is defined the comparator returns what \<open>byTime\<close>
  returns; on activities with times, being in order is \<open>byTime cmp a b \<le> 0\<close>.\<close>

lemma compareTime_byTime:
  "hasTime a \<Longrightarrow> compareTime cmp a b = Inr (byTime cmp a b)"
  by (auto simp: compareTime_def byTime_def timeKey_def hasTime_def)

lemma inOrder_byTime: "inOrder cmp a b \<Longrightarrow> byTime cmp a b \<le> 0"
  by (auto simp: inOrder_def byTime_def timeKey_def split: option.splits)

lemma byTime_inOrder:
  "hasTime a \<Longrightarrow> hasTime b \<Longrightarrow> byTime cmp a b \<le> 0 \<Longrightarrow> inOrder cmp a b"
  by (auto simp: inOrder_def byTime_def timeKey_def hasTime_def split: option.splits)

lemma sortByTime_defined:
  "\<forall>a\<in>set xs. hasTime a \<Longrightarrow> sortByTime cmp xs = Inr (arraySort (byTime cmp) xs)"
  by (cases xs) (auto simp: sortByTime_def list_ex_iff hasTime_def)

lemma sortedByTime_arraySort:
  assumes "consistentComparator cmp" and def: "\<forall>a\<in>set xs. hasTime a"
  shows "sortedByTime cmp (arraySort (byTime cmp) xs)"
proof -
  have "sorted_wrt (\<lambda>a b. byTime cmp a b \<le> 0) (arraySort (byTime cmp) xs)"
    using byTime_consistent[OF assms(1)] by (intro sorted_arraySort) blast+
  moreover have "inOrder cmp a b"
    if "a \<in> set (arraySort (byTime cmp) xs)" "b \<in> set (arraySort (byTime cmp) xs)"
       "byTime cmp a b \<le> 0" for a b
    using that def by (intro byTime_inOrder) (simp_all add: set_arraySort)
  ultimately show ?thesis
    unfolding sortedByTime_def
    by (rule sorted_wrt_mono_rel[rotated])
qed

text \<open>Sorting a day that is in order throws nothing and changes nothing.\<close>

lemma sortByTime_sorted_id:
  assumes "sortedByTime cmp xs"
  shows "sortByTime cmp xs = Inr xs"
proof -
  from assms have "sorted_wrt (\<lambda>a b. byTime cmp a b \<le> 0) xs"
    unfolding sortedByTime_def
    by (rule sorted_wrt_mono_rel[rotated]) (auto intro: inOrder_byTime)
  then have "arraySort (byTime cmp) xs = xs"
    by (rule arraySort_sorted_id)
  moreover have "\<not> list_ex (\<lambda>a. act_time a = None) (tl xs)"
    using assms unfolding sortedByTime_def
    by (cases xs) (auto simp: list_ex_iff inOrder_def split: option.splits)
  ultimately show ?thesis
    by (simp add: sortByTime_def)
qed

lemma sortedByTime_filter:
  "sortedByTime cmp xs \<Longrightarrow> sortedByTime cmp (filter P xs)"
  unfolding sortedByTime_def by (rule sorted_wrt_filter)

lemma codeUnitCompare_consistent: "consistentComparator codeUnitCompare"
  unfolding consistentComparator_def codeUnitCompare_def by auto

lemma mapE_Inr: "(\<And>x. x \<in> set xs \<Longrightarrow> f x = Inr (g x)) \<Longrightarrow> mapE f xs = Inr (map g xs)"
  by (induction xs) simp_all

lemma map_unchanged: "(\<And>x. x \<in> set xs \<Longrightarrow> f x = x) \<Longrightarrow> map f xs = xs"
  by (induction xs) simp_all

lemma mapE_unchanged: "(\<And>x. x \<in> set xs \<Longrightarrow> f x = Inr x) \<Longrightarrow> mapE f xs = Inr xs"
  using mapE_Inr[of xs f "\<lambda>x. x"] by simp

section \<open>The handlers and the order of the days\<close>

lemma tripSorted_days_map:
  assumes "tripSorted cmp t"
      and "\<And>d. d \<in> set (trip_days t) \<Longrightarrow> sortedByTime cmp (day_activities d)
             \<Longrightarrow> sortedByTime cmp (day_activities (f d))"
  shows "tripSorted cmp (t\<lparr>trip_days := map f (trip_days t)\<rparr>)"
  using assms by (auto simp: tripSorted_def list_all_iff)

lemma keepsSorted_map:
  assumes "\<And>t. t \<in> set (trips st) \<Longrightarrow> tripSorted cmp t \<Longrightarrow> tripSorted cmp (f t)"
  shows "keepsSorted cmp st (st\<lparr>trips := map f (trips st)\<rparr>)"
  using assms by (simp add: keepsSorted_def list_all2_conv_all_nth)

text \<open>On a state whose activities all have a time, and with fields that do not set the
  time to undefined, a handler throws nothing: it returns the state in which the day
  is sorted.\<close>

lemma newActivity_time:
  "(case activityData of None \<Rightarrow> True | Some u \<Rightarrow> timeGiven u)
     \<Longrightarrow> hasTime (newActivity now rnd activityData)"
  by (auto simp: newActivity_def spread_def noFields_def timeGiven_def hasTime_def
      split: option.splits)

lemma spread_time:
  "timeGiven u \<Longrightarrow> hasTime a \<Longrightarrow> hasTime (spread a u)"
  by (auto simp: spread_def timeGiven_def hasTime_def split: option.splits)

lemma handleAddActivity_timed:
  assumes td: "timesDefined st"
      and tg: "case activityData of None \<Rightarrow> True | Some u \<Rightarrow> timeGiven u"
  shows "handleAddActivity cmp now rnd dayId activityData st =
     Inr (let new = newActivity now rnd activityData;
              st' = st\<lparr>trips := map (\<lambda>trip.
                      if Some (trip_id trip) \<noteq> selectedTripId st then trip
                      else trip\<lparr>trip_days := map (\<lambda>day.
                             if Some (day_id day) = dayId
                             then day\<lparr>day_activities :=
                                    arraySort (byTime cmp) (day_activities day @ [new])\<rparr>
                             else day) (trip_days trip)\<rparr>) (trips st)\<rparr>
          in if activityData = None then st'\<lparr>editingActivity := Some (dayId, new)\<rparr> else st')"
proof -
  let ?new = "newActivity now rnd activityData"
  let ?g = "\<lambda>day. if Some (day_id day) = dayId
                   then day\<lparr>day_activities := arraySort (byTime cmp) (day_activities day @ [?new])\<rparr>
                   else day"
  let ?G = "\<lambda>day. if Some (day_id day) = dayId
                   then thenE (sortByTime cmp (day_activities day @ [?new]))
                          (\<lambda>sorted. day\<lparr>day_activities := sorted\<rparr>)
                   else Inr day"
  let ?f = "\<lambda>trip. if Some (trip_id trip) \<noteq> selectedTripId st then trip
                    else trip\<lparr>trip_days := map ?g (trip_days trip)\<rparr>"
  let ?F = "\<lambda>trip. if Some (trip_id trip) \<noteq> selectedTripId st then Inr trip
                    else thenE (mapE ?G (trip_days trip))
                           (\<lambda>updatedDays. trip\<lparr>trip_days := updatedDays\<rparr>)"
  have n: "hasTime ?new"
    using tg by (rule newActivity_time)
  have day: "?G day = Inr (?g day)" if "trip \<in> set (trips st)" "day \<in> set (trip_days trip)"
    for trip day
  proof -
    from td that have "\<forall>a\<in>set (day_activities day). hasTime a"
      by (auto simp: timesDefined_def list_all_iff)
    with n have "\<forall>a\<in>set (day_activities day @ [?new]). hasTime a"
      by auto
    then have "sortByTime cmp (day_activities day @ [?new])
                 = Inr (arraySort (byTime cmp) (day_activities day @ [?new]))"
      by (rule sortByTime_defined)
    then show ?thesis
      by (simp add: thenE_def)
  qed
  have trip: "?F trip = Inr (?f trip)" if "trip \<in> set (trips st)" for trip
  proof -
    have "mapE ?G (trip_days trip) = Inr (map ?g (trip_days trip))"
      by (rule mapE_Inr) (rule day[OF that])
    then show ?thesis
      by (simp add: thenE_def)
  qed
  have "mapE ?F (trips st) = Inr (map ?f (trips st))"
    by (rule mapE_Inr) (rule trip)
  then show ?thesis
    unfolding handleAddActivity_def Let_def by (simp add: thenE_def)
qed

lemma handleUpdateActivity_timed:
  assumes td: "timesDefined st"
      and tg: "timeGiven updates"
  shows "handleUpdateActivity cmp dayId activityId updates st =
     Inr (st\<lparr>trips := map (\<lambda>trip.
            if Some (trip_id trip) \<noteq> selectedTripId st then trip
            else trip\<lparr>trip_days := map (\<lambda>day.
                   if Some (day_id day) = dayId
                   then day\<lparr>day_activities := arraySort (byTime cmp)
                          (map (\<lambda>a. if act_id a = activityId then spread a updates else a)
                             (day_activities day))\<rparr>
                   else day) (trip_days trip)\<rparr>) (trips st)\<rparr>)"
proof -
  let ?u = "\<lambda>a. if act_id a = activityId then spread a updates else a"
  let ?g = "\<lambda>day. if Some (day_id day) = dayId
                   then day\<lparr>day_activities := arraySort (byTime cmp) (map ?u (day_activities day))\<rparr>
                   else day"
  let ?G = "\<lambda>day. if Some (day_id day) = dayId
                   then (let newActivities = map ?u (day_activities day)
                         in thenE (sortByTime cmp newActivities)
                              (\<lambda>sorted. day\<lparr>day_activities := sorted\<rparr>))
                   else Inr day"
  let ?f = "\<lambda>trip. if Some (trip_id trip) \<noteq> selectedTripId st then trip
                    else trip\<lparr>trip_days := map ?g (trip_days trip)\<rparr>"
  let ?F = "\<lambda>trip. if Some (trip_id trip) \<noteq> selectedTripId st then Inr trip
                    else thenE (mapE ?G (trip_days trip))
                           (\<lambda>updatedDays. trip\<lparr>trip_days := updatedDays\<rparr>)"
  have day: "?G day = Inr (?g day)" if "trip \<in> set (trips st)" "day \<in> set (trip_days trip)"
    for trip day
  proof -
    from td that have "\<forall>a\<in>set (day_activities day). hasTime a"
      by (auto simp: timesDefined_def list_all_iff)
    with tg have "\<forall>a\<in>set (map ?u (day_activities day)). hasTime a"
      by (auto simp: spread_time)
    then have "sortByTime cmp (map ?u (day_activities day))
                 = Inr (arraySort (byTime cmp) (map ?u (day_activities day)))"
      by (rule sortByTime_defined)
    then show ?thesis
      by (simp add: thenE_def)
  qed
  have trip: "?F trip = Inr (?f trip)" if "trip \<in> set (trips st)" for trip
  proof -
    have "mapE ?G (trip_days trip) = Inr (map ?g (trip_days trip))"
      by (rule mapE_Inr) (rule day[OF that])
    then show ?thesis
      by (simp add: thenE_def)
  qed
  have "mapE ?F (trips st) = Inr (map ?f (trips st))"
    by (rule mapE_Inr) (rule trip)
  then show ?thesis
    unfolding handleUpdateActivity_def by (simp add: thenE_def)
qed

lemma keepsSorted_add:
  assumes "consistentComparator cmp" "timesDefined st"
      and "case activityData of None \<Rightarrow> True | Some u \<Rightarrow> timeGiven u"
      and "handleAddActivity cmp now rnd dayId activityData st = Inr st'"
  shows "keepsSorted cmp st st' \<and> timesDefined st'"
proof -
  let ?new = "newActivity now rnd activityData"
  let ?f = "\<lambda>trip. if Some (trip_id trip) \<noteq> selectedTripId st then trip
              else trip\<lparr>trip_days := map (\<lambda>day.
                     if Some (day_id day) = dayId
                     then day\<lparr>day_activities :=
                            arraySort (byTime cmp) (day_activities day @ [?new])\<rparr>
                     else day) (trip_days trip)\<rparr>"
  have n: "hasTime ?new"
    using assms(3) by (rule newActivity_time)
  have d: "\<forall>a\<in>set (day_activities day @ [?new]). hasTime a"
    if "trip \<in> set (trips st)" "day \<in> set (trip_days trip)" for trip day
    using assms(2) that n by (auto simp: timesDefined_def list_all_iff)
  have s: "sortedByTime cmp (arraySort (byTime cmp) (day_activities day @ [?new]))"
    if "trip \<in> set (trips st)" "day \<in> set (trip_days trip)" for trip day
    using assms(1) d[OF that] by (rule sortedByTime_arraySort)
  have k: "keepsSorted cmp st (st\<lparr>trips := map ?f (trips st)\<rparr>)"
    by (rule keepsSorted_map) (auto intro!: tripSorted_days_map s)
  have t: "timesDefined (st\<lparr>trips := map ?f (trips st)\<rparr>)"
    using assms(2) n
    by (auto simp: timesDefined_def list_all_iff set_arraySort)
  from assms(4) handleAddActivity_timed[OF assms(2,3), of cmp now rnd dayId]
  have "trips st' = map ?f (trips st)"
    by (auto simp: Let_def split: if_splits)
  with k t show ?thesis
    by (simp add: keepsSorted_def timesDefined_def)
qed

lemma keepsSorted_update:
  assumes "consistentComparator cmp" "timesDefined st" "timeGiven updates"
      and "handleUpdateActivity cmp dayId activityId updates st = Inr st'"
  shows "keepsSorted cmp st st' \<and> timesDefined st'"
proof -
  let ?u = "\<lambda>a. if act_id a = activityId then spread a updates else a"
  let ?f = "\<lambda>trip. if Some (trip_id trip) \<noteq> selectedTripId st then trip
              else trip\<lparr>trip_days := map (\<lambda>day.
                     if Some (day_id day) = dayId
                     then day\<lparr>day_activities :=
                            arraySort (byTime cmp) (map ?u (day_activities day))\<rparr>
                     else day) (trip_days trip)\<rparr>"
  have d: "\<forall>a\<in>set (map ?u (day_activities day)). hasTime a"
    if "trip \<in> set (trips st)" "day \<in> set (trip_days trip)" for trip day
    using assms(2,3) that
    by (auto simp: timesDefined_def list_all_iff spread_time)
  have s: "sortedByTime cmp (arraySort (byTime cmp) (map ?u (day_activities day)))"
    if "trip \<in> set (trips st)" "day \<in> set (trip_days trip)" for trip day
    using assms(1) d[OF that] by (rule sortedByTime_arraySort)
  have k: "keepsSorted cmp st (st\<lparr>trips := map ?f (trips st)\<rparr>)"
    by (rule keepsSorted_map) (auto intro!: tripSorted_days_map s)
  have t: "timesDefined (st\<lparr>trips := map ?f (trips st)\<rparr>)"
    using assms(2,3)
    by (auto simp: timesDefined_def list_all_iff set_arraySort spread_time
       )
  from assms(4) handleUpdateActivity_timed[OF assms(2,3), of cmp dayId activityId]
  have "st' = st\<lparr>trips := map ?f (trips st)\<rparr>"
    by simp
  with k t show ?thesis
    by simp
qed

lemma keepsSorted_delete:
  "keepsSorted cmp st (handleDeleteActivity dayId activityId st)"
  unfolding handleDeleteActivity_def
  by (rule keepsSorted_map)
     (auto intro!: tripSorted_days_map simp: sortedByTime_filter)

lemma timesDefined_delete:
  "timesDefined st \<Longrightarrow> timesDefined (handleDeleteActivity dayId activityId st)"
  by (auto simp: timesDefined_def handleDeleteActivity_def list_all_iff)

lemma keepsSorted_refl: "keepsSorted cmp st st"
  by (simp add: keepsSorted_def list_all2_conv_all_nth)

lemma keepsSorted_trans:
  "keepsSorted cmp a b \<Longrightarrow> keepsSorted cmp b c \<Longrightarrow> keepsSorted cmp a c"
  unfolding keepsSorted_def by (auto simp: list_all2_conv_all_nth)

lemma keepsSorted_allSorted:
  "keepsSorted cmp st st' \<Longrightarrow> allSorted cmp st \<Longrightarrow> allSorted cmp st'"
  unfolding keepsSorted_def allSorted_def
  by (auto simp: list_all2_conv_all_nth list_all_length)

lemma applyOperation_timed:
  assumes "timesDefined st" "operationTimed op"
  shows "\<exists>st'. applyOperation cmp st op = Inr st'"
proof (cases op)
  case (AddActivity now rnd dayId activityData)
  with assms show ?thesis
    using handleAddActivity_timed[of st activityData cmp now rnd dayId] by simp
next
  case (UpdateActivity dayId activityId updates)
  with assms show ?thesis
    using handleUpdateActivity_timed[of st updates cmp dayId activityId] by simp
next
  case (RemoveActivity dayId activityId)
  then show ?thesis by simp
qed

lemma keepsSorted_op:
  assumes "consistentComparator cmp" "timesDefined st" "operationTimed op"
      and "applyOperation cmp st op = Inr st'"
  shows "keepsSorted cmp st st' \<and> timesDefined st'"
proof (cases op)
  case (AddActivity now rnd dayId activityData)
  with assms show ?thesis
    using keepsSorted_add[of cmp st activityData now rnd dayId st'] by simp
next
  case (UpdateActivity dayId activityId updates)
  with assms show ?thesis
    using keepsSorted_update[of cmp st updates dayId activityId st'] by simp
next
  case (RemoveActivity dayId activityId)
  with assms show ?thesis
    using keepsSorted_delete[of cmp st dayId activityId]
      timesDefined_delete[of st dayId activityId] by auto
qed

text \<open>
  The order is kept on the inputs that \<^verbatim>\<open>types.ts\<close> describes. With a consistent
  \<open>localeCompare\<close>, on a state whose activities all have a time, every sequence of
  operations whose fields do not set the time to undefined throws nothing and takes
  every trip whose days are sorted to a trip whose days are sorted.
\<close>

lemma sort_invariant_on_timed_input:
  assumes "consistentComparator cmp" "timesDefined st" "list_all operationTimed ops"
  shows "\<exists>st'. applyOperations cmp st ops = Inr st' \<and> keepsSorted cmp st st'
           \<and> timesDefined st'"
  using assms(2,3)
proof (induction ops arbitrary: st)
  case Nil
  then show ?case by (simp add: keepsSorted_refl)
next
  case (Cons op ops)
  from Cons.prems obtain st1 where s1: "applyOperation cmp st op = Inr st1"
    using applyOperation_timed[of st op cmp] by auto
  with Cons.prems assms(1) have k1: "keepsSorted cmp st st1" "timesDefined st1"
    using keepsSorted_op[of cmp st op st1] by auto
  with Cons obtain st' where s': "applyOperations cmp st1 ops = Inr st'"
      "keepsSorted cmp st1 st'" "timesDefined st'"
    by fastforce
  with s1 k1 show ?case
    by (auto intro: keepsSorted_trans)
qed

lemma exState_sorted: "allSorted codeUnitCompare exState"
  by (simp add: allSorted_def tripSorted_def sortedByTime_def inOrder_def codeUnitCompare_def
      exState_def exTrip_def exA_def exB_def)

lemma exOps_run:
  "map_sum id (\<lambda>s. map (\<lambda>d. map act_time (day_activities d)) (concat (map trip_days (trips s))))
     (applyOperations codeUnitCompare exState exOps)
   = Inr [[Some ''08:15'', Some ''15:00'']]"
  by (simp add: exOps_def exState_def exTrip_def exA_def exB_def handleAddActivity_def
      handleUpdateActivity_def handleDeleteActivity_def newActivity_def spread_def
      noFields_def sortByTime_def arraySort_def byTime_def timeKey_def codeUnitCompare_def
      thenE_def Let_def numberToString_def slice_def digits.simps)

text \<open>
  C1. The claim fails in the code. The days of the example trip are sorted
  (\<open>09:00\<close>, \<open>13:30\<close>). The assistant's call \<open>add_activity\<close> with a day and a title
  and no time passes \<^verbatim>\<open>time: undefined\<close> to \<open>handleAddActivity\<close>; the spread puts it
  over the default \<open>12:00\<close>, and the comparator of the sort reads
  \<^verbatim>\<open>localeCompare\<close> of undefined: the updater throws a TypeError, and the trip the
  claim speaks of does not come to exist. The bridge has answered that the activity
  was added.
\<close>

theorem add_activity_without_time_throws:
  "map (\<lambda>d. map act_time (day_activities d)) (trip_days exTrip)
     = [[Some ''09:00'', Some ''13:30'']]
   \<and> allSorted codeUnitCompare exState
   \<and> pa_time (addFields exAddArgs) = Some None
   \<and> act_time (newActivity 1700000000000 ''0.4821'' (Some (addFields exAddArgs))) = None
   \<and> handleAddActivity codeUnitCompare 1700000000000 ''0.4821'' (Some ''day-1'')
        (Some (addFields exAddArgs)) exState
       = Inl (TypeError ''localeCompare'')
   \<and> executeTools exHost exTrip
        [\<lparr>fc_id = Some ''c1'', fc_name = Some ''add_activity'', fc_args = Some exAddArgs\<rparr>]
        exState
       = ([\<lparr>fr_id = Some ''c1'', fr_name = Some ''add_activity'',
            fr_response = ''Atividade '' @ [CHR 0x27] @ ''Cafe'' @ [CHR 0x27]
                            @ '' adicionada com sucesso.''\<rparr>],
          Inl (TypeError ''localeCompare''))"
  by (simp add: exState_def exTrip_def exA_def exB_def exAddArgs_def noArgs_def addFields_def
      exHost_def executeTools_def executeTool_def runTool_def thenUpdate_def templateString_def
      handleAddActivity_def newActivity_def spread_def sortByTime_def thenE_def Let_def
      allSorted_def tripSorted_def sortedByTime_def inOrder_def codeUnitCompare_def)

section \<open>Rounding\<close>

text \<open>
  What makes \<open>roundDouble\<close> the rounding of IEEE 754: \<open>floorLog2\<close> is the exponent
  of its argument, \<open>roundHalfEven\<close> is within a half of its argument, and the result
  of \<open>roundDouble\<close> is a multiple of the unit of the last place by a significand of
  at most 53 bits, within half that unit of the exact value.
\<close>

lemma bitLength_bounds: "0 < n \<Longrightarrow> 2 ^ (bitLength n - 1) \<le> n \<and> n < 2 ^ bitLength n"
proof (induction n rule: bitLength.induct)
  case (1 n)
  show ?case
  proof (cases "n div 2 = 0")
    case True
    with 1(2) have "n = 1" by (simp add: div_eq_0_iff)
    moreover have "bitLength (Suc 0) = Suc 0"
      by (simp add: bitLength.simps[of "Suc 0"] bitLength.simps[of 0])
    ultimately show ?thesis
      by simp
  next
    case False
    with 1 have ih: "2 ^ (bitLength (n div 2) - 1) \<le> n div 2" "n div 2 < 2 ^ bitLength (n div 2)"
      by auto
    have b: "bitLength n = Suc (bitLength (n div 2))"
      using 1(2) by (subst bitLength.simps) simp
    have p: "0 < bitLength (n div 2)"
      using False by (subst bitLength.simps) simp
    then have "(2::nat) ^ bitLength (n div 2) = 2 * 2 ^ (bitLength (n div 2) - 1)"
      by (cases "bitLength (n div 2)") simp_all
    with ih show ?thesis
      unfolding b by simp linarith
  qed
qed

lemma pow2_nat: "pow2 (int k) = 2 ^ k"
  by (simp add: pow2_def)

lemma pow2_neg_nat: "pow2 (- int k) = 1 / 2 ^ k"
  by (simp add: pow2_def)

lemma pow2_pos: "0 < pow2 e"
  by (simp add: pow2_def)

lemma floorLog2_bounds:
  assumes "0 < x"
  shows "pow2 (floorLog2 x) \<le> x \<and> x < pow2 (floorLog2 x + 1)"
proof (cases "1 \<le> x")
  case True
  define n where "n = nat \<lfloor>x\<rfloor>"
  have n: "0 < n" "of_nat n \<le> x" "x < of_nat n + 1"
    using True unfolding n_def by (auto simp: of_nat_nat) linarith+
  define b where "b = bitLength n"
  from bitLength_bounds[OF n(1)] have bb: "2 ^ (b - 1) \<le> n" "n < 2 ^ b"
    unfolding b_def by auto
  have bp: "0 < b"
    unfolding b_def using n(1) by (subst bitLength.simps) simp
  have f: "floorLog2 x = int (b - 1)"
    using True bp by (simp add: floorLog2_def n_def b_def)
  have "int (b - 1) + 1 = int b"
    using bp by simp
  then have g: "pow2 (int (b - 1) + 1) = 2 ^ b"
    by (simp only: pow2_nat)
  from bb(1) have "(of_nat (2 ^ (b - 1)) :: rat) \<le> of_nat n"
    unfolding of_nat_le_iff .
  then have "(2::rat) ^ (b - 1) \<le> of_nat n"
    by simp
  moreover from bb(2) have "(of_nat (Suc n) :: rat) \<le> of_nat (2 ^ b)"
    unfolding of_nat_le_iff by simp
  then have "(of_nat n :: rat) + 1 \<le> 2 ^ b"
    by simp
  ultimately show ?thesis
    unfolding f g pow2_nat using n by linarith
next
  case False
  with assms have x: "0 < x" "x < 1" by auto
  then have i: "1 < 1 / x" by simp
  define m where "m = nat (\<lceil>1 / x\<rceil> - 1)"
  have c: "2 \<le> \<lceil>1 / x\<rceil>"
    using i by linarith
  have m: "0 < m" "of_nat m < 1 / x" "1 / x \<le> of_nat m + 1"
    using c unfolding m_def by (auto simp: of_nat_nat) linarith+
  define b where "b = bitLength m"
  from bitLength_bounds[OF m(1)] have bb: "2 ^ (b - 1) \<le> m" "m < 2 ^ b"
    unfolding b_def by auto
  have bp: "0 < b"
    unfolding b_def using m(1) by (subst bitLength.simps) simp
  have f: "floorLog2 x = - int b"
    using False bp by (simp add: floorLog2_def m_def b_def)
  have "- int b + 1 = - int (b - 1)"
    using bp by simp
  then have g: "pow2 (- int b + 1) = 1 / 2 ^ (b - 1)"
    by (simp only: pow2_neg_nat)
  from bb(1) have "(of_nat (2 ^ (b - 1)) :: rat) \<le> of_nat m"
    unfolding of_nat_le_iff .
  then have lo: "(2::rat) ^ (b - 1) \<le> of_nat m"
    by simp
  from bb(2) have "(of_nat (Suc m) :: rat) \<le> of_nat (2 ^ b)"
    unfolding of_nat_le_iff by simp
  then have hi: "(of_nat m :: rat) + 1 \<le> 2 ^ b"
    by simp
  have "1 / x \<le> 2 ^ b"
    using m(3) hi by linarith
  then have a1: "1 / 2 ^ b \<le> x"
    using x(1) by (simp add: field_simps)
  have "2 ^ (b - 1) < 1 / x"
    using m(2) lo by linarith
  then have a2: "x < 1 / 2 ^ (b - 1)"
    using x(1) by (simp add: field_simps)
  from a1 a2 show ?thesis
    unfolding f g pow2_neg_nat by simp
qed

lemma roundHalfEven_nearest: "\<bar>of_int (roundHalfEven x) - x\<bar> \<le> 1 / 2"
proof -
  define d where "d = x - of_int \<lfloor>x\<rfloor>"
  have d: "0 \<le> d" "d < 1"
    unfolding d_def by linarith+
  consider (lo) "d < 1 / 2" | (hi) "1 / 2 < d" | (tie) "d = 1 / 2"
    by linarith
  then show ?thesis
  proof cases
    case lo
    then have "roundHalfEven x = \<lfloor>x\<rfloor>"
      by (simp add: roundHalfEven_def Let_def d_def)
    with lo d show ?thesis
      unfolding d_def by simp
  next
    case hi
    then have "roundHalfEven x = \<lfloor>x\<rfloor> + 1"
      by (simp add: roundHalfEven_def Let_def d_def)
    with hi d show ?thesis
      unfolding d_def by simp
  next
    case tie
    then have "roundHalfEven x = \<lfloor>x\<rfloor> \<or> roundHalfEven x = \<lfloor>x\<rfloor> + 1"
      by (simp add: roundHalfEven_def Let_def d_def)
    with tie show ?thesis
      unfolding d_def by auto
  qed
qed

lemma roundHalfEven_floor: "\<lfloor>x\<rfloor> \<le> roundHalfEven x \<and> roundHalfEven x \<le> \<lfloor>x\<rfloor> + 1"
  by (simp add: roundHalfEven_def Let_def)

lemma pow2_Suc: "pow2 (e + 1) = 2 * pow2 e"
proof -
  consider "0 \<le> e" | "e = - 1" | "e < - 1"
    by linarith
  then show ?thesis
  proof cases
    case 1
    then show ?thesis by (simp add: pow2_def nat_add_distrib)
  next
    case 2
    then show ?thesis by (simp add: pow2_def)
  next
    case 3
    then have "nat (- e) = Suc (nat (- (e + 1)))" by simp
    with 3 show ?thesis by (simp add: pow2_def)
  qed
qed

lemma pow2_add_nat: "pow2 (e + int k) = 2 ^ k * pow2 e"
proof (induction k)
  case 0
  show ?case by simp
next
  case (Suc k)
  have "e + int (Suc k) = (e + int k) + 1" by simp
  then show ?case
    by (simp only: pow2_Suc Suc.IH) simp
qed

lemma pow2_mono:
  assumes "a \<le> b"
  shows "pow2 a \<le> pow2 b"
proof -
  from assms have "b = a + int (nat (b - a))" by simp
  then have "pow2 b = 2 ^ nat (b - a) * pow2 a"
    using pow2_add_nat[of a "nat (b - a)"] by simp
  moreover have "1 * pow2 a \<le> 2 ^ nat (b - a) * pow2 a"
    by (intro mult_right_mono) (simp_all add: less_imp_le[OF pow2_pos])
  ultimately show ?thesis by simp
qed

text \<open>The result of rounding is a double, and a nearest one.\<close>

lemma roundDouble_nearest:
  assumes "x \<noteq> 0" and "roundDouble x = Finite r"
  shows "(\<exists>m. \<bar>m\<bar> \<le> 2 ^ 53 \<and> r = of_int m * unitInLastPlace x)
         \<and> \<bar>r - x\<bar> \<le> unitInLastPlace x / 2"
proof -
  define a where "a = \<bar>x\<bar>"
  define u where "u = unitInLastPlace x"
  define q where "q = a / u"
  define m where "m = roundHalfEven q"
  have a: "0 < a"
    using assms(1) by (simp add: a_def)
  have u: "0 < u"
    by (simp add: u_def unitInLastPlace_def pow2_pos)
  have q: "0 < q"
    using a u by (simp add: q_def)
  from q have "0 \<le> \<lfloor>q\<rfloor>"
    by simp
  with roundHalfEven_floor[of q] have m0: "0 \<le> m"
    unfolding m_def by linarith
  have "pow2 (floorLog2 a - 52) \<le> u"
    unfolding u_def unitInLastPlace_def a_def by (rule pow2_mono) simp
  moreover have "floorLog2 a + 1 = (floorLog2 a - 52) + int 53"
    by simp
  then have "pow2 (floorLog2 a + 1) = 2 ^ 53 * pow2 (floorLog2 a - 52)"
    by (simp only: pow2_add_nat)
  moreover have "a < pow2 (floorLog2 a + 1)"
    using floorLog2_bounds[OF a] by simp
  ultimately have "a < 2 ^ 53 * pow2 (floorLog2 a - 52)" "2 ^ 53 * pow2 (floorLog2 a - 52) \<le> 2 ^ 53 * u"
    by simp_all
  then have "a < u * 2 ^ 53"
    by simp
  then have "q < 2 ^ 53"
    using u by (simp add: q_def field_simps)
  then have "\<lfloor>q\<rfloor> < 2 ^ 53"
    by (simp add: floor_less_iff)
  with roundHalfEven_floor[of q] have m1: "m \<le> 2 ^ 53"
    unfolding m_def by linarith
  from roundHalfEven_nearest[of q] have "\<bar>of_int m - q\<bar> * u \<le> 1 / 2 * u"
    unfolding m_def using u by (intro mult_right_mono) simp_all
  moreover have "(of_int m - q) * u = of_int m * u - a"
    using u by (simp add: q_def left_diff_distrib)
  then have "\<bar>of_int m * u - a\<bar> = \<bar>of_int m - q\<bar> * \<bar>u\<bar>"
    by (simp only: abs_mult[symmetric])
  then have "\<bar>of_int m - q\<bar> * u = \<bar>of_int m * u - a\<bar>"
    using u by simp
  ultimately have near: "\<bar>of_int m * u - a\<bar> \<le> u / 2"
    by simp
  from assms have r: "r = (if 0 < x then of_int m * u else - (of_int m * u))"
    by (simp add: roundDouble_def Let_def u_def[symmetric] a_def[symmetric] q_def[symmetric]
        m_def[symmetric] split: if_splits)
  show ?thesis
  proof (cases "0 < x")
    case True
    with r near m0 m1 show ?thesis
      unfolding u_def[symmetric] a_def by (auto intro!: exI[of _ m])
  next
    case False
    with assms(1) have neg: "x < 0" by simp
    then have e1: "a = - x"
      by (simp add: a_def)
    have "\<bar>r - x\<bar> = \<bar>- (of_int m * u - a)\<bar>"
      using r neg unfolding e1 by simp
    also have "\<dots> = \<bar>of_int m * u - a\<bar>"
      by (rule abs_minus)
    finally have "\<bar>r - x\<bar> \<le> u / 2"
      using near by simp
    moreover have "r = of_int (- m) * u"
      using r neg by simp
    ultimately show ?thesis
      using m0 m1 unfolding u_def[symmetric] by (intro conjI exI[of _ "- m"]) simp_all
  qed
qed

section \<open>Total cost\<close>

lemma bitLength_le: "n < 2 ^ k \<Longrightarrow> bitLength n \<le> k"
proof (induction k arbitrary: n)
  case 0
  then show ?case by (simp add: bitLength.simps)
next
  case (Suc k)
  show ?case
  proof (cases "n = 0")
    case True
    then show ?thesis by (simp add: bitLength.simps)
  next
    case False
    from Suc.prems have "n div 2 < 2 ^ k" by simp
    then have "bitLength (n div 2) \<le> k" by (rule Suc.IH)
    with False show ?thesis by (subst bitLength.simps) simp
  qed
qed

lemma roundHalfEven_of_int: "roundHalfEven (of_int m) = m"
  by (simp add: roundHalfEven_def)

text \<open>A whole number of magnitude below \<open>2^53\<close> is a double: rounding returns it.\<close>

lemma roundDouble_of_int:
  assumes "\<bar>n\<bar> < 2 ^ 53"
  shows "roundDouble (of_int n) = Finite (of_int n)"
proof (cases "n = 0")
  case True
  then show ?thesis by (simp add: roundDouble_def)
next
  case False
  define a where "a = nat \<bar>n\<bar>"
  have a: "0 < a" "a < 2 ^ 53" "\<bar>of_int n :: rat\<bar> = of_nat a"
    using False assms unfolding a_def by (auto simp: nat_less_iff)
  define j where "j = 53 - bitLength a"
  have bl: "bitLength a \<le> 53"
    using a(2) by (rule bitLength_le)
  have bp: "0 < bitLength a"
    using a(1) by (subst bitLength.simps) simp
  have fl: "floorLog2 (of_nat a) = int (bitLength a) - 1"
    using a(1) by (simp add: floorLog2_def)
  have e: "max (floorLog2 (of_nat a) - 52) (- 1074) = - int j"
    using bl bp unfolding fl j_def by simp
  have p: "pow2 (- int j) = 1 / 2 ^ j"
    by (simp add: pow2_def)
  have q: "(of_nat a :: rat) / pow2 (- int j) = of_int (int a * 2 ^ j)"
    unfolding p by simp
  have "roundHalfEven (of_nat a / pow2 (- int j)) = int a * 2 ^ j"
    by (simp only: q roundHalfEven_of_int)
  then have r: "of_int (roundHalfEven (of_nat a / pow2 (- int j))) * pow2 (- int j)
                  = (of_nat a :: rat)"
    by (simp add: p)
  have "(of_nat a :: rat) < 2 ^ 53"
    using a(2) by (metis of_nat_less_iff of_nat_numeral of_nat_power)
  also have "\<dots> < pow2 1024"
    by (simp add: pow2_def)
  finally have s: "\<not> pow2 1024 \<le> (of_nat a :: rat)"
    by simp
  have "roundDouble (of_int n) = Finite (if 0 < n then of_nat a else - of_nat a)"
    using False s by (simp add: roundDouble_def unitInLastPlace_def a(3) e r Let_def)
  also have "(if 0 < n then of_nat a else - of_nat a) = (of_int n :: rat)"
    unfolding a_def by (auto simp: of_nat_nat)
  finally show ?thesis .
qed

text \<open>What a cost adds when it is undefined, NaN or a whole number, and whether it is
  one of these.\<close>

lemma costOrZero_whole:
  "wholeCost c \<Longrightarrow> costOrZero c = Finite (of_int (wholeValue c))"
  by (auto simp: wholeCost_def wholeValue_def costOrZero_def orZero_def numberTruthy_def
      split: option.splits Number.splits)

lemma numberAdd_whole:
  "\<bar>m + n\<bar> < 2 ^ 53 \<Longrightarrow> numberAdd (Finite (of_int m)) (Finite (of_int n)) = Finite (of_int (m + n))"
  using roundDouble_of_int[of "m + n"] by simp

lemma orZero_whole: "orZero (Finite (of_int n)) = Finite (of_int n)"
  by (simp add: orZero_def numberTruthy_def)

lemma dayTotal_whole:
  assumes "list_all (\<lambda>a. wholeCost (act_cost a)) acts"
      and "\<bar>acc\<bar> + (\<Sum>a\<leftarrow>acts. \<bar>wholeValue (act_cost a)\<bar>) < 2 ^ 53"
  shows "foldl (\<lambda>dayTotal act. numberAdd dayTotal (costOrZero (act_cost act)))
           (Finite (of_int acc)) acts
         = Finite (of_int (acc + (\<Sum>a\<leftarrow>acts. wholeValue (act_cost a))))"
  using assms
proof (induction acts arbitrary: acc)
  case Nil
  then show ?case by simp
next
  case (Cons a acts)
  from Cons.prems have w: "wholeCost (act_cost a)" by simp
  have "0 \<le> (\<Sum>a\<leftarrow>acts. \<bar>wholeValue (act_cost a)\<bar>)"
    by (auto intro!: sum_list_nonneg)
  with Cons.prems have b: "\<bar>acc + wholeValue (act_cost a)\<bar> < 2 ^ 53"
    by simp
  have step: "numberAdd (Finite (of_int acc)) (costOrZero (act_cost a))
                = Finite (of_int (acc + wholeValue (act_cost a)))"
    unfolding costOrZero_whole[OF w] using b by (rule numberAdd_whole)
  from Cons.prems have "\<bar>acc + wholeValue (act_cost a)\<bar>
      + (\<Sum>a\<leftarrow>acts. \<bar>wholeValue (act_cost a)\<bar>) < 2 ^ 53"
    by simp
  with Cons.IH[of "acc + wholeValue (act_cost a)"] Cons.prems step show ?case
    by (simp add: add.assoc)
qed

lemma abs_sum_list_le: "\<bar>\<Sum>x\<leftarrow>xs. f x\<bar> \<le> (\<Sum>x\<leftarrow>xs. \<bar>f x :: int\<bar>)"
  by (induction xs) auto

lemma total_whole:
  assumes "list_all (\<lambda>d. list_all (\<lambda>a. wholeCost (act_cost a)) (day_activities d)) ds"
      and "\<bar>acc\<bar> + (\<Sum>d\<leftarrow>ds. \<Sum>a\<leftarrow>day_activities d. \<bar>wholeValue (act_cost a)\<bar>) < 2 ^ 53"
  shows "foldl (\<lambda>total day.
            numberAdd total
              (orZero (foldl (\<lambda>dayTotal act. numberAdd dayTotal (costOrZero (act_cost act)))
                         (Finite 0) (day_activities day))))
           (Finite (of_int acc)) ds
         = Finite (of_int (acc + (\<Sum>d\<leftarrow>ds. \<Sum>a\<leftarrow>day_activities d. wholeValue (act_cost a))))"
  using assms
proof (induction ds arbitrary: acc)
  case Nil
  then show ?case by simp
next
  case (Cons d ds)
  let ?s = "\<Sum>a\<leftarrow>day_activities d. wholeValue (act_cost a)"
  let ?m = "\<Sum>a\<leftarrow>day_activities d. \<bar>wholeValue (act_cost a)\<bar>"
  let ?rest = "\<Sum>d\<leftarrow>ds. \<Sum>a\<leftarrow>day_activities d. \<bar>wholeValue (act_cost a)\<bar>"
  have nn: "0 \<le> ?rest" "0 \<le> ?m"
    by (auto intro!: sum_list_nonneg)
  from Cons.prems have bound: "\<bar>acc\<bar> + ?m + ?rest < 2 ^ 53"
    by simp
  have sm: "\<bar>?s\<bar> \<le> ?m"
    by (rule abs_sum_list_le)
  from Cons.prems have w: "list_all (\<lambda>a. wholeCost (act_cost a)) (day_activities d)"
    by simp
  have "\<bar>0::int\<bar> + ?m < 2 ^ 53"
    using bound nn by simp
  from dayTotal_whole[OF w this]
  have day: "foldl (\<lambda>dayTotal act. numberAdd dayTotal (costOrZero (act_cost act)))
               (Finite 0) (day_activities d) = Finite (of_int ?s)"
    by simp
  have "\<bar>acc + ?s\<bar> < 2 ^ 53"
    using bound nn sm by simp
  then have step: "numberAdd (Finite (of_int acc)) (orZero (Finite (of_int ?s)))
                     = Finite (of_int (acc + ?s))"
    unfolding orZero_whole by (rule numberAdd_whole)
  have "\<bar>acc + ?s\<bar> + ?rest < 2 ^ 53"
    using bound sm by simp
  with Cons.IH[of "acc + ?s"] Cons.prems day step show ?case
    by (simp add: add.assoc)
qed

text \<open>Floor and ceiling of a quotient of numerals, to compute the examples.\<close>

lemma floor_rat_numeral: "\<lfloor>numeral a / numeral b :: rat\<rfloor> = numeral a div numeral b"
  using floor_divide_of_int_eq[of "numeral a" "numeral b", where ?'a = rat] by simp

lemma floor_rat_one: "\<lfloor>1 / numeral b :: rat\<rfloor> = 1 div numeral b"
  using floor_divide_of_int_eq[of 1 "numeral b", where ?'a = rat] by simp

lemma ceiling_rat_numeral:
  "\<lceil>numeral a / numeral b :: rat\<rceil> = - (- numeral a div numeral b)"
  using floor_divide_of_int_eq[of "- numeral a" "numeral b", where ?'a = rat]
  by (simp add: ceiling_def)

lemma ceiling_rat_one: "\<lceil>1 / numeral b :: rat\<rceil> = - (- 1 div numeral b)"
  using floor_divide_of_int_eq[of "- 1" "numeral b", where ?'a = rat]
  by (simp add: ceiling_def)

lemmas roundDouble_eval = roundDouble_def unitInLastPlace_def floorLog2_def roundHalfEven_def pow2_def Let_def
  bitLength.simps floor_rat_numeral floor_rat_one ceiling_rat_numeral ceiling_rat_one

lemma sum_list_concat_map:
  "(\<Sum>a\<leftarrow>concat (map g ds). f a) = (\<Sum>d\<leftarrow>ds. \<Sum>a\<leftarrow>g d. (f a :: int))"
  by (induction ds) simp_all

text \<open>
  C4, as the claim states it, fails: the total is the result of additions of doubles,
  day by day, and depends on how the costs are split into days. The two example trips
  hold the costs 0.1, 0.2 and 0.3 in this order. The first has a day for 0.1 and a day
  for 0.2 and 0.3 and the total 0.6, the double \<open>5404319552844595 / 2^53\<close>; the
  second has a day for 0.1 and 0.2 and a day for 0.3 and the total 0.6000000000000001,
  the double \<open>5404319552844596 / 2^53\<close>. The sum of the three costs is one number and
  cannot be both.
\<close>

theorem calculateTotalCost_grouping_counterexample:
  "map act_cost (concat (map day_activities (trip_days exSplitEarly)))
     = map act_cost (concat (map day_activities (trip_days exSplitLate)))
   \<and> calculateTotalCost (Some exSplitEarly) = Finite (5404319552844595 / 2 ^ 53)
   \<and> calculateTotalCost (Some exSplitLate) = Finite (5404319552844596 / 2 ^ 53)"
proof -
  have c1: "roundDouble (1 / 10) = Finite (3602879701896397 / 2 ^ 55)"
    by (simp add: roundDouble_eval)
  have c2: "roundDouble (2 / 10) = Finite (3602879701896397 / 2 ^ 54)"
    by (simp add: roundDouble_eval)
  have c3: "roundDouble (3 / 10) = Finite (5404319552844595 / 2 ^ 54)"
    by (simp add: roundDouble_eval)
  have z: "numberAdd (Finite 0) (Finite x) = roundDouble x" for x
    by simp
  have r1: "roundDouble (3602879701896397 / 2 ^ 55) = Finite (3602879701896397 / 2 ^ 55)"
    by (simp add: roundDouble_eval)
  have r2: "roundDouble (3602879701896397 / 2 ^ 54) = Finite (3602879701896397 / 2 ^ 54)"
    by (simp add: roundDouble_eval)
  have r3: "roundDouble (5404319552844595 / 2 ^ 54) = Finite (5404319552844595 / 2 ^ 54)"
    by (simp add: roundDouble_eval)
  have s23: "roundDouble (3602879701896397 / 2 ^ 54 + 5404319552844595 / 2 ^ 54) = Finite (1 / 2)"
    by (simp add: roundDouble_eval)
  have s12: "roundDouble (3602879701896397 / 2 ^ 55 + 3602879701896397 / 2 ^ 54)
               = Finite (5404319552844596 / 2 ^ 54)"
    by (simp add: roundDouble_eval)
  have e: "roundDouble (3602879701896397 / 2 ^ 55 + 1 / 2) = Finite (5404319552844595 / 2 ^ 53)"
    by (simp add: roundDouble_eval)
  have r12: "roundDouble (5404319552844596 / 2 ^ 54) = Finite (5404319552844596 / 2 ^ 54)"
    by (simp add: roundDouble_eval)
  have l: "roundDouble (5404319552844596 / 2 ^ 54 + 5404319552844595 / 2 ^ 54)
             = Finite (5404319552844596 / 2 ^ 53)"
    by (simp add: roundDouble_eval)
  have t: "numberTruthy (Finite (3602879701896397 / 2 ^ 55))"
      "numberTruthy (Finite (3602879701896397 / 2 ^ 54))"
      "numberTruthy (Finite (5404319552844595 / 2 ^ 54))"
      "numberTruthy (Finite (5404319552844596 / 2 ^ 54))"
      "numberTruthy (Finite (5404319552844595 / 2 ^ 53))"
      "numberTruthy (Finite (5404319552844596 / 2 ^ 53))"
      "numberTruthy (Finite (1 / 2))"
    by (simp_all add: numberTruthy_def)
  have early: "calculateTotalCost (Some exSplitEarly) = Finite (5404319552844595 / 2 ^ 53)"
    unfolding calculateTotalCost_def exSplitEarly_def exCost_def exTrip_def exB_def
    by (simp only: option.case Trip.simps ItineraryDay.simps Activity.simps foldl.simps
        costOrZero_def orZero_def c1 c2 c3 z r1 r2 r3 s23 e t if_True numberAdd.simps add_0)
  have late: "calculateTotalCost (Some exSplitLate) = Finite (5404319552844596 / 2 ^ 53)"
    unfolding calculateTotalCost_def exSplitLate_def exCost_def exTrip_def exB_def
    by (simp only: option.case Trip.simps ItineraryDay.simps Activity.simps foldl.simps
        costOrZero_def orZero_def c1 c2 c3 z r1 r2 r3 r12 s12 l t if_True numberAdd.simps add_0)
  have same: "map act_cost (concat (map day_activities (trip_days exSplitEarly)))
     = map act_cost (concat (map day_activities (trip_days exSplitLate)))"
    by (simp add: exSplitEarly_def exSplitLate_def)
  from same early late show ?thesis
    by simp
qed

text \<open>
  C4, amended. When every cost of a trip is undefined, NaN or a whole number, and the
  magnitudes of the costs add up to less than \<open>2^53\<close>, \<open>calculateTotalCost\<close> is
  the sum of the costs of all activities of all days, an activity whose cost is
  undefined or NaN counting as zero: no addition rounds. (For other costs the total is
  the rounded left-to-right sum of the rounded left-to-right sums of the days.)
\<close>

theorem calculateTotalCost_whole_costs:
  assumes "list_all (\<lambda>a. wholeCost (act_cost a)) (concat (map day_activities (trip_days trip)))"
      and "(\<Sum>a\<leftarrow>concat (map day_activities (trip_days trip)). \<bar>wholeValue (act_cost a)\<bar>) < 2 ^ 53"
  shows "calculateTotalCost (Some trip) =
           Finite (of_int (\<Sum>a\<leftarrow>concat (map day_activities (trip_days trip)).
                             wholeValue (act_cost a)))"
proof -
  from assms(1)
  have w: "list_all (\<lambda>d. list_all (\<lambda>a. wholeCost (act_cost a)) (day_activities d)) (trip_days trip)"
    by (auto simp: list_all_iff)
  from assms(2)
  have b: "\<bar>0::int\<bar> + (\<Sum>d\<leftarrow>trip_days trip. \<Sum>a\<leftarrow>day_activities d. \<bar>wholeValue (act_cost a)\<bar>)
             < 2 ^ 53"
    by (simp add: sum_list_concat_map)
  from total_whole[OF w b] show ?thesis
    by (simp add: calculateTotalCost_def orZero_whole sum_list_concat_map)
qed

text \<open>The example of the specification: costs 100 and absent sum to 100.\<close>

theorem calculateTotalCost_whole_costs_witness:
  "map act_cost (concat (map day_activities (trip_days exTrip))) = [Some (Finite 100), None]
   \<and> calculateTotalCost (Some exTrip) = Finite 100"
  using calculateTotalCost_whole_costs[of exTrip]
  by (simp add: exTrip_def exA_def exB_def wholeCost_def wholeValue_def)

section \<open>Removing and updating by identifier\<close>

text \<open>
  C5. Removing the same activity of the same day twice gives the state that removing
  it once gives: the second \<open>handleDeleteActivity\<close> changes nothing.
\<close>

theorem handleDeleteActivity_idempotent:
  "handleDeleteActivity dayId activityId (handleDeleteActivity dayId activityId st)
     = handleDeleteActivity dayId activityId st"
  by (simp add: handleDeleteActivity_def comp_def cong: map_cong)

text \<open>
  C6. When the days of the selected trip are sorted by time and the identifiers name
  no activity of it (no day is called \<open>dayId\<close>, or the days called \<open>dayId\<close> hold no
  activity called \<open>activityId\<close>), \<open>handleUpdateActivity\<close> throws nothing and returns
  the state it was given.
\<close>

theorem handleUpdateActivity_unknown_noop:
  assumes srt: "list_all (tripSorted cmp) (selectedTrips st)"
      and nom: "list_all (noMatch dayId activityId) (selectedTrips st)"
  shows "handleUpdateActivity cmp dayId activityId updates st = Inr st"
proof -
  let ?g = "\<lambda>day. if Some (day_id day) = dayId
                 then (let newActivities =
                             map (\<lambda>a. if act_id a = activityId then spread a updates else a)
                                 (day_activities day)
                       in thenE (sortByTime cmp newActivities)
                            (\<lambda>sorted. day\<lparr>day_activities := sorted\<rparr>))
                 else Inr day"
  have day: "?g day = Inr day"
    if "trip \<in> set (trips st)" "Some (trip_id trip) = selectedTripId st"
       "day \<in> set (trip_days trip)" for trip day
  proof (cases "Some (day_id day) = dayId")
    case False
    then show ?thesis by simp
  next
    case True
    from that have sel: "trip \<in> set (selectedTrips st)"
      by (simp add: selectedTrips_def)
    with srt that have "sortedByTime cmp (day_activities day)"
      by (auto simp: list_all_iff tripSorted_def)
    then have s: "sortByTime cmp (day_activities day) = Inr (day_activities day)"
      by (rule sortByTime_sorted_id)
    from sel nom that True have "\<forall>a\<in>set (day_activities day). act_id a \<noteq> activityId"
      by (auto simp: list_all_iff noMatch_def)
    then have "map (\<lambda>a. if act_id a = activityId then spread a updates else a)
                 (day_activities day) = day_activities day"
      by (intro map_unchanged) auto
    with s True show ?thesis by (simp add: thenE_def)
  qed
  have "mapE (\<lambda>trip. if Some (trip_id trip) \<noteq> selectedTripId st then Inr trip
          else thenE (mapE ?g (trip_days trip))
                 (\<lambda>updatedDays. trip\<lparr>trip_days := updatedDays\<rparr>)) (trips st) = Inr (trips st)"
  proof (rule mapE_unchanged)
    fix trip assume t: "trip \<in> set (trips st)"
    show "(if Some (trip_id trip) \<noteq> selectedTripId st then Inr trip
          else thenE (mapE ?g (trip_days trip))
                 (\<lambda>updatedDays. trip\<lparr>trip_days := updatedDays\<rparr>)) = Inr trip"
    proof (cases "Some (trip_id trip) = selectedTripId st")
      case False
      then show ?thesis by simp
    next
      case True
      have "mapE ?g (trip_days trip) = Inr (trip_days trip)"
        by (rule mapE_unchanged) (rule day[OF t True])
      with True show ?thesis by (simp add: thenE_def)
    qed
  qed
  then show ?thesis
    unfolding handleUpdateActivity_def by (simp add: thenE_def)
qed

text \<open>Two instances on the example state: a day that does not exist, and an activity
  that the existing day does not hold.\<close>

theorem handleUpdateActivity_unknown_noop_witness:
  "list_all (tripSorted codeUnitCompare) (selectedTrips exState)
   \<and> list_all (noMatch (Some ''day-9'') (Some ''a1'')) (selectedTrips exState)
   \<and> list_all (noMatch (Some ''day-1'') (Some ''a7'')) (selectedTrips exState)
   \<and> handleUpdateActivity codeUnitCompare (Some ''day-9'') (Some ''a1'')
        (noFields\<lparr>pa_time := Some (Some ''07:00'')\<rparr>) exState = Inr exState
   \<and> handleUpdateActivity codeUnitCompare (Some ''day-1'') (Some ''a7'')
        (noFields\<lparr>pa_time := Some (Some ''07:00'')\<rparr>) exState = Inr exState"
proof -
  have s: "list_all (tripSorted codeUnitCompare) (selectedTrips exState)"
    by (simp add: selectedTrips_def tripSorted_def sortedByTime_def inOrder_def
        codeUnitCompare_def exState_def exTrip_def exA_def exB_def)
  have n1: "list_all (noMatch (Some ''day-9'') (Some ''a1'')) (selectedTrips exState)"
    by (simp add: selectedTrips_def noMatch_def exState_def exTrip_def exA_def exB_def)
  have n2: "list_all (noMatch (Some ''day-1'') (Some ''a7'')) (selectedTrips exState)"
    by (simp add: selectedTrips_def noMatch_def exState_def exTrip_def exA_def exB_def)
  from s n1 n2
    handleUpdateActivity_unknown_noop[OF s n1, of "noFields\<lparr>pa_time := Some (Some ''07:00'')\<rparr>"]
    handleUpdateActivity_unknown_noop[OF s n2, of "noFields\<lparr>pa_time := Some (Some ''07:00'')\<rparr>"]
  show ?thesis by simp
qed

section \<open>The assistant bridge\<close>

lemma executeTool_response:
  "executeTool h tripRef k call pending = (r, pending') \<Longrightarrow>
     fr_id r = fc_id call \<and> fr_name r = fc_name call
     \<and> (unknownTool call \<longrightarrow> fr_response r = ''Ferramenta desconhecida.'' \<and> pending' = pending)"
  by (auto simp: executeTool_def runTool_def unknownTool_def knownTools_def thenUpdate_def
      split: sum.splits JsError.splits option.splits prod.splits if_splits)

lemma toolLoop_responses:
  "toolLoop h tripRef k calls (rs, st) = (rs', st') \<Longrightarrow>
     \<exists>new. rs' = rs @ new \<and> list_all2 answers calls new"
proof (induction calls arbitrary: k rs st)
  case Nil
  then show ?case by simp
next
  case (Cons call calls)
  obtain r st1 where e: "executeTool h tripRef k call st = (r, st1)"
    by (cases "executeTool h tripRef k call st")
  with Cons.prems have "toolLoop h tripRef (Suc k) calls (rs @ [r], st1) = (rs', st')"
    by simp
  from Cons.IH[OF this] obtain new where n: "rs' = (rs @ [r]) @ new" "list_all2 answers calls new"
    by blast
  from executeTool_response[OF e] have "answers call r"
    by (simp add: answers_def)
  with n have "rs' = rs @ (r # new) \<and> list_all2 answers (call # calls) (r # new)"
    by simp
  then show ?case by blast
qed

text \<open>
  C7. \<open>executeTools\<close> returns one response for each call of the batch, in the order
  of the calls (each response carries the id and the name of the call at its place),
  and a call whose name is none of \<open>add_activity\<close>, \<open>update_activity\<close>,
  \<open>remove_activity\<close>, \<open>get_trip_details\<close>, \<open>get_exchange_rate\<close> is answered with
  \<open>Ferramenta desconhecida.\<close>; no call makes the batch raise, the result is a list
  of responses for every input.
\<close>

theorem executeTools_answers_every_call:
  "length (fst (executeTools h tripRef functionCalls st)) = length functionCalls
   \<and> list_all2 answers functionCalls (fst (executeTools h tripRef functionCalls st))"
proof -
  obtain rs st' where e: "executeTools h tripRef functionCalls st = (rs, st')"
    by (cases "executeTools h tripRef functionCalls st")
  then have "toolLoop h tripRef 0 functionCalls ([], Inr st) = (rs, st')"
    by (simp add: executeTools_def)
  from toolLoop_responses[OF this] e
  have "list_all2 answers functionCalls (fst (executeTools h tripRef functionCalls st))"
    by auto
  then show ?thesis
    by (auto dest: list_all2_lengthD)
qed

text \<open>A batch of four: an unknown name, a removal, a call without a name, and an update
  whose arguments are undefined (caught by the bridge).\<close>

theorem executeTools_answers_every_call_witness:
  "map unknownTool exCalls = [True, False, True, False]
   \<and> list_all2 answers exCalls (fst (executeTools exHost exTrip exCalls exState))
   \<and> map fr_response (fst (executeTools exHost exTrip exCalls exState))
       = [''Ferramenta desconhecida.'', ''Atividade removida.'', ''Ferramenta desconhecida.'',
          ''Erro ao executar: Cannot read properties of undefined (reading ''
            @ [CHR 0x27] @ ''dayId'' @ [CHR 0x27] @ '')'']"
  using executeTools_answers_every_call[of exHost exTrip exCalls exState]
  by (simp add: exCalls_def unknownTool_def knownTools_def executeTools_def executeTool_def
        runTool_def thenUpdate_def exHost_def exState_def exTrip_def exA_def exB_def noArgs_def
        handleDeleteActivity_def)

text \<open>
  C10. The case \<open>update_activity\<close> calls \<open>handleUpdateActivity\<close> with the fields
  \<open>updateFields args\<close>. On an activity the update reaches, notes, time, title and
  location change only when the argument is a non-empty string (an empty string or
  undefined leaves the stored field as it was); cost, lat and lng change whenever the
  argument is not undefined, 0 included.
\<close>

theorem update_activity_forwarding:
  "runTool h tripRef k \<lparr>fc_id = i, fc_name = Some ''update_activity'', fc_args = Some args\<rparr>
     = Inr (''Atividade atualizada.'',
            handleUpdateActivity (localeCompare h) (arg_dayId args) (arg_activityId args)
              (updateFields args))
   \<and> act_notes (spread a (updateFields args)) =
       (case arg_notes args of None \<Rightarrow> act_notes a
        | Some s \<Rightarrow> if s = [] then act_notes a else Some s)
   \<and> act_time (spread a (updateFields args)) =
       (case arg_time args of None \<Rightarrow> act_time a
        | Some s \<Rightarrow> if s = [] then act_time a else Some s)
   \<and> act_title (spread a (updateFields args)) =
       (case arg_title args of None \<Rightarrow> act_title a
        | Some s \<Rightarrow> if s = [] then act_title a else Some s)
   \<and> act_location (spread a (updateFields args)) =
       (case arg_location args of None \<Rightarrow> act_location a
        | Some s \<Rightarrow> if s = [] then act_location a else Some s)
   \<and> act_cost (spread a (updateFields args)) =
       (case arg_cost args of None \<Rightarrow> act_cost a | Some c \<Rightarrow> Some c)
   \<and> act_lat (spread a (updateFields args)) =
       (case arg_lat args of None \<Rightarrow> act_lat a | Some c \<Rightarrow> Some c)
   \<and> act_lng (spread a (updateFields args)) =
       (case arg_lng args of None \<Rightarrow> act_lng a | Some c \<Rightarrow> Some c)"
  by (simp add: runTool_def updateFields_def spread_def whenTruthy_def split: option.splits)

text \<open>An update of activity \<open>a1\<close> with an empty time, a new title and cost 0: the
  time stays, the title and the cost change.\<close>

theorem update_activity_forwarding_witness:
  "arg_time exUpdateArgs = Some [] \<and> arg_cost exUpdateArgs = Some (Finite 0)
   \<and> act_time (spread exA (updateFields exUpdateArgs)) = act_time exA
   \<and> act_cost (spread exA (updateFields exUpdateArgs)) = Some (Finite 0)
   \<and> map_sum id (\<lambda>s. map (\<lambda>a. (act_id a, act_time a, act_title a, act_cost a))
        (concat (map day_activities (concat (map trip_days (trips s))))))
        (snd (executeTools exHost exTrip
                [\<lparr>fc_id = Some ''c1'', fc_name = Some ''update_activity'',
                  fc_args = Some exUpdateArgs\<rparr>] exState))
      = Inr [(Some ''a1'', Some ''09:00'', Some ''Museu Nacional'', Some (Finite 0)),
             (Some ''a2'', Some ''13:30'', Some ''Almoco'', None)]"
  using update_activity_forwarding[of exHost exTrip 0 "Some ''c1''" exUpdateArgs exA]
  by (simp add: executeTools_def executeTool_def thenUpdate_def thenE_def sortByTime_def
        runTool_def exHost_def exState_def exTrip_def exA_def exB_def noArgs_def exUpdateArgs_def
        handleUpdateActivity_def updateFields_def whenTruthy_def spread_def arraySort_def
        byTime_def timeKey_def codeUnitCompare_def Let_def)

section \<open>Local persistence\<close>





text \<open>
  C9. With an empty trip list the persist effect removes the stored entry (it writes
  no empty array), and the load effect of the next start, run on that storage, loads
  no trip.
\<close>

theorem persist_empty_clears_storage:
  "storage (persistEffect stringify (st\<lparr>storedTrips := []\<rparr>)) = None
   \<and> storedTrips (loadEffect parse
        (startup (storage (persistEffect stringify (st\<lparr>storedTrips := []\<rparr>))))) = []"
  by (simp add: persistEffect_def loadEffect_def startup_def)

section \<open>generateDays\<close>

lemmas date_defs = YearFromTime_def MonthFromTime_def DateFromTime_def DayWithinYear_def
  InLeapYear_def DaysInYear_def Day_def DayFromYear_def monthStart_def msPerDay_def
  MakeDate_def MakeTime_def MakeDay_def LocalTime_def UTC_def TimeClip_def

text \<open>\<open>YearFromTime\<close> is the year of the ECMAScript specification: the year that
  starts at or before the day of \<open>t\<close> while the next year starts after it.\<close>

lemma DayFromYear_bounds:
  shows "146097 * Y - 287811598 \<le> 400 * DayFromYear Y"
    and "400 * DayFromYear Y \<le> 146097 * Y - 287810496"
  unfolding DayFromYear_def by (simp_all add: algebra_simps)

lemma YearFromTime_correct:
  "DayFromYear (YearFromTime t) \<le> Day t \<and> Day t < DayFromYear (YearFromTime t + 1)"
proof -
  define d where "d = Day t"
  define q where "q = (d * 400) div 146097"
  have q: "146097 * q \<le> 400 * d" "400 * d < 146097 * q + 146097"
    unfolding q_def by linarith+
  have "DayFromYear (1970 + q - 1) \<le> d"
    using q DayFromYear_bounds(2)[of "1970 + q - 1"] by (simp add: algebra_simps)
  moreover have "d < DayFromYear (1970 + q + 1 + 1)"
    using q DayFromYear_bounds(1)[of "1970 + q + 1 + 1"] by (simp add: algebra_simps)
  ultimately show ?thesis
    unfolding YearFromTime_def Let_def d_def[symmetric] q_def[symmetric]
    by auto
qed

lemma MonthFromTime_range: "0 \<le> MonthFromTime t \<and> MonthFromTime t < 12"
  by (simp add: MonthFromTime_def Let_def)

text \<open>The fields the getters read give the day back, whatever the date asked for.\<close>

lemma MakeDay_fields:
  "MakeDay (YearFromTime t) (MonthFromTime t) date = Day t + (date - DateFromTime t)"
proof -
  have m: "MonthFromTime t div 12 = 0" "MonthFromTime t mod 12 = MonthFromTime t"
    using MonthFromTime_range[of t] by simp_all
  show ?thesis
    by (simp add: MakeDay_def m DateFromTime_def DayWithinYear_def InLeapYear_def)
qed

lemma setDate_next: "setDate tz t (getDate tz t + 1) = TimeClip (t + msPerDay)"
proof -
  let ?lt = "LocalTime tz t"
  have "MakeDate (MakeDay (YearFromTime ?lt) (MonthFromTime ?lt) (DateFromTime ?lt + 1))
          (TimeWithinDay ?lt) = MakeDate (Day ?lt) (TimeWithinDay ?lt) + msPerDay"
    by (simp add: MakeDay_fields MakeDate_def algebra_simps)
  then show ?thesis
    by (simp add: setDate_def getDate_def Let_def MakeDate_def Day_def TimeWithinDay_def
        UTC_def LocalTime_def)
qed

text \<open>The loop pushes one day for each turn, a day apart.\<close>

lemma daysLoop_days:
  "\<bar>c\<bar> \<le> 8640000000000000 \<Longrightarrow> e \<le> 8640000000000000 \<Longrightarrow>
   daysLoop tz (Some c) (Some e) days
     = days @ map (\<lambda>k. newDay (c + int k * msPerDay)) [0..<loopTurns c e]"
proof (induction "nat (e - c + 1)" arbitrary: c days rule: less_induct)
  case less
  show ?case
  proof (cases "c \<le> e")
    case False
    then show ?thesis by (simp add: daysLoop.simps loopTurns_def)
  next
    case True
    have step: "daysLoop tz (Some c) (Some e) days
        = daysLoop tz (TimeClip (c + msPerDay)) (Some e) (days @ [newDay c])"
      using True by (simp add: daysLoop.simps[of tz "Some c"] setDate_next)
    show ?thesis
    proof (cases "c + msPerDay \<le> e")
      case False
      then have "loopTurns c e = 1"
        using True by (simp add: loopTurns_def msPerDay_def)
      moreover have "daysLoop tz (TimeClip (c + msPerDay)) (Some e) (days @ [newDay c])
          = days @ [newDay c]"
        using False by (simp add: TimeClip_def daysLoop.simps)
      ultimately show ?thesis using step by simp
    next
      case nxt: True
      then have clip: "TimeClip (c + msPerDay) = Some (c + msPerDay)"
        using less.prems by (simp add: TimeClip_def msPerDay_def)
      have ih: "daysLoop tz (Some (c + msPerDay)) (Some e) (days @ [newDay c])
          = (days @ [newDay c])
            @ map (\<lambda>k. newDay (c + msPerDay + int k * msPerDay)) [0..<loopTurns (c + msPerDay) e]"
        using less.prems nxt by (intro less.hyps) (simp_all add: msPerDay_def)
      have "(e - c) div msPerDay = (e - (c + msPerDay)) div msPerDay + 1"
      proof -
        have "e - c = (e - (c + msPerDay)) + 1 * msPerDay" by simp
        then show ?thesis
          by (metis div_add_self2_no_field add.commute div_mult_self1 msPerDay_def
              mult.commute mult_1 zero_neq_numeral)
      qed
      moreover have "0 \<le> (e - (c + msPerDay)) div msPerDay"
        using nxt by (simp add: msPerDay_def)
      ultimately have turns: "loopTurns c e = Suc (loopTurns (c + msPerDay) e)"
        using True nxt by (simp add: loopTurns_def)
      have "map (\<lambda>k. newDay (c + int k * msPerDay)) [0..<Suc n]
          = newDay c # map (\<lambda>k. newDay (c + msPerDay + int k * msPerDay)) [0..<n]" for n
      proof -
        have "[0..<Suc n] = 0 # map Suc [0..<n]"
          by (simp add: upt_conv_Cons map_Suc_upt del: upt_Suc)
        then show ?thesis
          by (simp add: comp_def algebra_simps del: upt_Suc)
      qed
      with step clip ih turns show ?thesis by simp
    qed
  qed
qed

text \<open>Outside the years 0 to 99 the constructor gives noon of the local day.\<close>

lemma localNoon_plain:
  assumes "plainYear tz t"
  shows "localNoon tz (Some t)
           = TimeClip (Day (LocalTime tz t) * msPerDay + 43200000 - tz * 60000)"
proof -
  let ?y = "YearFromTime (LocalTime tz t)"
  from assms have "(if 0 \<le> ?y \<and> ?y \<le> 99 then 1900 + ?y else ?y) = ?y"
    by (simp add: plainYear_def getFullYear_def)
  then show ?thesis
    by (simp add: localNoon_def newDate_def getFullYear_def getMonth_def
        getDate_def MakeDay_fields MakeDate_def MakeTime_def UTC_def)
qed

text \<open>A parsed date is midnight UTC of a day in the years 0 to 9999.\<close>

lemma digitValue_le: "digitValue c = Some v \<Longrightarrow> v \<le> 9"
  by (auto simp: digitValue_def split: if_splits)

lemma decimalValue_bound:
  "decimalValue acc cs = Some v \<Longrightarrow> v < (acc + 1) * 10 ^ length cs"
proof (induction cs arbitrary: acc)
  case Nil
  then show ?case by simp
next
  case (Cons c cs)
  then obtain dv where dv: "digitValue c = Some dv" and r: "decimalValue (10 * acc + dv) cs = Some v"
    by (auto split: option.splits)
  from Cons.IH[OF r] have "v < (10 * acc + dv + 1) * 10 ^ length cs" .
  also have "\<dots> \<le> (10 * acc + 10) * 10 ^ length cs"
    using digitValue_le[OF dv] by (intro mult_right_mono) simp_all
  finally show ?case by (simp add: algebra_simps)
qed

lemma dateParse_midnight:
  assumes "dateParse str = Some s"
  shows "Day s * msPerDay = s" and "\<bar>s\<bar> \<le> 300000000000000"
proof -
  from assms obtain y m d where
    y: "decimalValue 0 (take 4 str) = Some y" and
    m: "1 \<le> m" "m \<le> 12" and d: "1 \<le> d" "int d \<le> DaysInMonth (int y) (int m)" and
    s: "s = MakeDate (MakeDay (int y) (int m - 1) (int d)) 0"
    by (auto simp: dateParse_def split: if_splits option.splits)
  show "Day s * msPerDay = s"
    by (simp add: s MakeDate_def Day_def msPerDay_def)
  from decimalValue_bound[OF y] have "y < 10 ^ length (take 4 str)" by simp
  also have "\<dots> \<le> 10 ^ 4" by (intro power_increasing) simp_all
  finally have yb: "int y < 10000" by simp
  have mm: "(int m - 1) div 12 = 0" "(int m - 1) mod 12 = int m - 1"
    using m by simp_all
  have ms: "0 \<le> monthStart 0 (int m - 1)" "monthStart 0 (int m - 1) \<le> 335"
    "0 \<le> monthStart 1 (int m - 1)" "monthStart 1 (int m - 1) \<le> 335"
    by (simp_all add: monthStart_def)
  have dd: "int d \<le> 31"
    using d(2) by (simp add: DaysInMonth_def split: if_splits)
  have lo: "- 719530 \<le> DayFromYear (int y)"
    using DayFromYear_bounds(1)[of "int y"] by simp
  have hi: "DayFromYear (int y) \<le> 2932600"
    using DayFromYear_bounds(2)[of "int y"] yb by simp
  have "- 719530 \<le> MakeDay (int y) (int m - 1) (int d)
        \<and> MakeDay (int y) (int m - 1) (int d) \<le> 2933000"
    using lo hi dd d(1) ms
    by (simp add: MakeDay_def mm Let_def)
  then show "\<bar>s\<bar> \<le> 300000000000000"
    by (simp add: s MakeDate_def msPerDay_def abs_le_iff)
qed

text \<open>
  Where both local years are outside 0 to 99, \<open>generateDays\<close> returns one day for
  each day from the start to the end (none if the end precedes the start), at noon local
  time; the dates are those of the start and the following days moved by \<open>dateShift\<close>,
  which is 0 from UTC to UTC+12 and -1 west of UTC and east of UTC+12.
\<close>

lemma generateDays_plain:
  assumes ps: "dateParse start = Some s" and pe: "dateParse end = Some e"
      and ys: "plainYear tz s" and ye: "plainYear tz e"
      and tz: "\<bar>tz\<bar> \<le> 1440"
  shows "generateDays tz start end
           = map (\<lambda>k. newDay (s + noonOffset tz + int k * msPerDay)) [0..<loopTurns s e]"
proof -
  have day: "Day (LocalTime tz t) * msPerDay + 43200000 - tz * 60000 = t + noonOffset tz"
    if "Day t * msPerDay = t" for t
  proof -
    have "Day (LocalTime tz t) = Day t + Day (tz * 60000)"
    proof -
      have "LocalTime tz t = tz * 60000 + Day t * msPerDay"
        using that by (simp add: LocalTime_def)
      then show ?thesis
        by (simp add: Day_def msPerDay_def)
    qed
    then show ?thesis
      using that by (simp add: noonOffset_def algebra_simps)
  qed
  have off: "\<bar>noonOffset tz\<bar> \<le> 300000000"
  proof -
    have "- 2 \<le> Day (tz * 60000) \<and> Day (tz * 60000) \<le> 1"
      using tz by (simp add: Day_def msPerDay_def) linarith
    then show ?thesis
      using tz by (simp add: noonOffset_def msPerDay_def) linarith
  qed
  note ms = dateParse_midnight[OF ps] and me = dateParse_midnight[OF pe]
  have cs: "localNoon tz (Some s) = Some (s + noonOffset tz)"
    using ms(2) off by (simp add: localNoon_plain[OF ys] day[OF ms(1)] TimeClip_def)
  have ce: "localNoon tz (Some e) = Some (e + noonOffset tz)"
    using me(2) off by (simp add: localNoon_plain[OF ye] day[OF me(1)] TimeClip_def)
  have "daysLoop tz (Some (s + noonOffset tz)) (Some (e + noonOffset tz)) []
      = [] @ map (\<lambda>k. newDay (s + noonOffset tz + int k * msPerDay))
                [0..<loopTurns (s + noonOffset tz) (e + noonOffset tz)]"
    using ms(2) me(2) off by (intro daysLoop_days) simp_all
  moreover have "loopTurns (s + noonOffset tz) (e + noonOffset tz) = loopTurns s e"
    by (simp add: loopTurns_def)
  ultimately show ?thesis
    by (simp add: generateDays_def ps pe cs ce)
qed

text \<open>The dates of the days, and the shift of the dates by the zone.\<close>

lemma Day_shift: "Day t * msPerDay = t \<Longrightarrow> Day (t + u) = Day t + Day u"
proof -
  assume "Day t * msPerDay = t"
  then have "t + u = u + Day t * msPerDay" by simp
  then show ?thesis
    by (simp add: Day_def msPerDay_def)
qed

lemma isoDate_Day: "Day t = Day u \<Longrightarrow> isoDate t = isoDate u"
  by (simp add: isoDate_def YearFromTime_def MonthFromTime_def DateFromTime_def
      DayWithinYear_def InLeapYear_def)

lemma generateDays_dates:
  assumes ps: "dateParse start = Some s" and pe: "dateParse end = Some e"
      and ys: "plainYear tz s" and ye: "plainYear tz e"
      and tz: "\<bar>tz\<bar> \<le> 1440"
  shows "map day_date (generateDays tz start end)
           = map (\<lambda>k. isoDate (s + (dateShift tz + int k) * msPerDay)) [0..<loopTurns s e]"
proof -
  note ms = dateParse_midnight(1)[OF ps]
  have "isoDate (s + noonOffset tz + int k * msPerDay)
      = isoDate (s + (dateShift tz + int k) * msPerDay)" for k
  proof (rule isoDate_Day)
    have m: "Day (s + int k * msPerDay) * msPerDay = s + int k * msPerDay"
      using ms by (simp add: Day_def msPerDay_def algebra_simps)
    have "Day (s + noonOffset tz + int k * msPerDay)
        = Day (s + int k * msPerDay) + Day (noonOffset tz)"
      using Day_shift[OF m, of "noonOffset tz"] by (simp add: algebra_simps)
    moreover have "Day (s + (dateShift tz + int k) * msPerDay)
        = Day (s + int k * msPerDay) + dateShift tz"
      using Day_shift[OF m, of "dateShift tz * msPerDay"]
      by (simp add: algebra_simps Day_def msPerDay_def)
    ultimately show "Day (s + noonOffset tz + int k * msPerDay)
        = Day (s + (dateShift tz + int k) * msPerDay)"
      by (simp add: dateShift_def)
  qed
  then show ?thesis
    by (simp add: generateDays_plain[OF assms] newDay_def comp_def)
qed

lemma dateShift_cases:
  shows "0 \<le> tz \<Longrightarrow> tz \<le> 720 \<Longrightarrow> dateShift tz = 0"
    and "- 720 < tz \<Longrightarrow> tz < 0 \<Longrightarrow> dateShift tz = - 1"
    and "720 < tz \<Longrightarrow> tz < 1440 \<Longrightarrow> dateShift tz = - 1"
proof -
  show "dateShift tz = 0" if "0 \<le> tz" "tz \<le> 720"
  proof -
    from that have "tz div 1440 = 0" by simp
    then have "noonOffset tz = 43200000 - tz * 60000"
      by (simp add: noonOffset_def Day_def msPerDay_def)
    with that show ?thesis
      by (simp add: dateShift_def Day_def msPerDay_def)
  qed
  show "dateShift tz = - 1" if "- 720 < tz" "tz < 0"
  proof -
    from that have "tz div 1440 = - 1" by linarith
    then have "noonOffset tz = - 43200000 - tz * 60000"
      by (simp add: noonOffset_def Day_def msPerDay_def)
    with that show ?thesis
      by (simp add: dateShift_def Day_def msPerDay_def)
  qed
  show "dateShift tz = - 1" if "720 < tz" "tz < 1440"
  proof -
    from that have "tz div 1440 = 0" by simp
    then have "noonOffset tz = 43200000 - tz * 60000"
      by (simp add: noonOffset_def Day_def msPerDay_def)
    with that show ?thesis
      by (simp add: dateShift_def Day_def msPerDay_def)
  qed
qed

text \<open>An hour east of UTC the days of a trip over the end of February 2024 carry the
  dates of the trip.\<close>

lemma generateDays_east_example:
  "map day_date (generateDays 60 ''2024-02-28'' ''2024-03-01'')
     = [''2024-02-28'', ''2024-02-29'', ''2024-03-01'']"
proof -
  have ps: "dateParse ''2024-02-28'' = Some 1709078400000"
    by (simp add: dateParse_def digitValue_def DaysInMonth_def date_defs Let_def)
  have pe: "dateParse ''2024-03-01'' = Some 1709251200000"
    by (simp add: dateParse_def digitValue_def DaysInMonth_def date_defs Let_def)
  have ys: "plainYear 60 1709078400000"
    by (simp add: plainYear_def getFullYear_def date_defs Let_def)
  have ye: "plainYear 60 1709251200000"
    by (simp add: plainYear_def getFullYear_def date_defs Let_def)
  have turns: "[0..<loopTurns 1709078400000 1709251200000] = [0, 1, 2]"
    by (simp add: loopTurns_def msPerDay_def upt_rec)
  have iso: "isoDate 1709078400000 = ''2024-02-28''" "isoDate 1709164800000 = ''2024-02-29''"
    "isoDate 1709251200000 = ''2024-03-01''"
    by (simp_all add: isoDate_def padStart_def date_defs Let_def digits.simps)
  from generateDays_dates[OF ps pe ys ye] dateShift_cases(1)[of 60] turns iso
  show ?thesis
    by (simp add: msPerDay_def)
qed

text \<open>The decimal text of a number determines the number, so the identifiers of the days
  differ.\<close>

lemma digitValue_digit: "k < 10 \<Longrightarrow> digitValue (''0123456789'' ! k) = Some k"
proof -
  assume "k < 10"
  then have "k \<in> {0, 1, 2, 3, 4, 5, 6, 7, 8, 9}" by auto
  then show ?thesis
    by (elim insertE emptyE) (simp_all add: digitValue_def)
qed

lemma decimalValue_append:
  "decimalValue acc (xs @ ys)
     = (case decimalValue acc xs of None \<Rightarrow> None | Some v \<Rightarrow> decimalValue v ys)"
  by (induction xs arbitrary: acc) (auto split: option.splits)

lemma decimalValue_digits: "decimalValue 0 (digits n) = Some n"
proof (induction n rule: digits.induct)
  case (1 n)
  show ?case
  proof (cases "n < 10")
    case True
    then show ?thesis
      by (subst digits.simps) (simp add: digitValue_digit)
  next
    case False
    with 1 have "decimalValue 0 (digits (n div 10)) = Some (n div 10)" by simp
    with False show ?thesis
      by (subst digits.simps) (simp add: decimalValue_append digitValue_digit)
  qed
qed

lemma digits_inj: "digits a = digits b \<Longrightarrow> a = b"
  by (metis decimalValue_digits option.inject)

lemma digits_no_sign: "digits n \<noteq> CHR ''-'' # cs"
proof
  assume "digits n = CHR ''-'' # cs"
  then have "decimalValue 0 (CHR ''-'' # cs) = Some n"
    using decimalValue_digits[of n] by simp
  then show False
    by (simp add: digitValue_def)
qed

lemma numberToString_inj:
  assumes "numberToString a = numberToString b"
  shows "a = b"
proof (cases "a < 0")
  case na: True
  show ?thesis
  proof (cases "b < 0")
    case True
    with na assms have "digits (nat (- a)) = digits (nat (- b))"
      by (simp add: numberToString_def)
    then have "nat (- a) = nat (- b)" by (rule digits_inj)
    with na True show ?thesis by simp
  next
    case False
    with na assms have "digits (nat b) = CHR ''-'' # digits (nat (- a))"
      by (simp add: numberToString_def)
    then show ?thesis using digits_no_sign by blast
  qed
next
  case pa: False
  show ?thesis
  proof (cases "b < 0")
    case True
    with pa assms have "digits (nat a) = CHR ''-'' # digits (nat (- b))"
      by (simp add: numberToString_def)
    then show ?thesis using digits_no_sign by blast
  next
    case False
    with pa assms have "digits (nat a) = digits (nat b)"
      by (simp add: numberToString_def)
    then have "nat a = nat b" by (rule digits_inj)
    with pa False show ?thesis by simp
  qed
qed

lemma generateDays_ids_distinct:
  assumes ps: "dateParse start = Some s" and pe: "dateParse end = Some e"
      and ys: "plainYear tz s" and ye: "plainYear tz e"
      and tz: "\<bar>tz\<bar> \<le> 1440"
  shows "distinct (map day_id (generateDays tz start end))"
proof -
  have "inj_on (\<lambda>k. ''day-'' @ numberToString (s + noonOffset tz + int k * msPerDay)) A" for A
    by (rule inj_onI) (auto dest!: numberToString_inj simp: msPerDay_def)
  then show ?thesis
    by (simp add: generateDays_plain[OF assms] newDay_def comp_def distinct_map)
qed

text \<open>
  C2. The claim fails on the code where the host is west of UTC. In a zone three hours
  behind UTC, a trip that starts and ends on 2024-03-10 gets one day, as the claim
  says, but the day is dated 2024-03-09: the text is read as midnight UTC, which is
  the evening of the day before in local time, and the loop runs on local days.
\<close>

theorem generateDays_west_of_utc:
  "generateDays (- 180) ''2024-03-10'' ''2024-03-10'' =
     [\<lparr>day_id = ''day-1709996400000'', day_date = ''2024-03-09'', day_activities = []\<rparr>]"
proof -
  have parse: "dateParse ''2024-03-10'' = Some 1710028800000"
    by (simp add: dateParse_def digitValue_def DaysInMonth_def date_defs Let_def)
  have noon: "localNoon (- 180) (Some 1710028800000) = Some 1709996400000"
    by (simp add: localNoon_def newDate_def getFullYear_def getMonth_def getDate_def
        date_defs Let_def)
  have iso: "isoDate 1709996400000 = ''2024-03-09''"
    by (simp add: isoDate_def padStart_def date_defs Let_def digits.simps)
  have ident: "numberToString 1709996400000 = ''1709996400000''"
    by (simp add: numberToString_def digits.simps)
  show ?thesis
    by (simp add: generateDays_def parse noon iso ident setDate_next TimeClip_def msPerDay_def
        daysLoop.simps newDay_def)
qed

text \<open>
  C3. The claim fails on the code where the two years fall on different sides of the
  year 100. With the host on UTC, the end 0099-12-31 precedes the start 0100-01-01,
  but the \<^verbatim>\<open>Date\<close> constructor moves the year 99 to 1999, so the limit of the loop
  is noon of 1999-12-31 and the result has 693960 days instead of none.
\<close>

theorem generateDays_end_before_start_year_99:
  "dateParse ''0100-01-01'' = Some (- 59011459200000)
   \<and> dateParse ''0099-12-31'' = Some (- 59011545600000)
   \<and> localNoon 0 (dateParse ''0100-01-01'') = Some (- 59011416000000)
   \<and> localNoon 0 (dateParse ''0099-12-31'') = Some 946641600000
   \<and> length (generateDays 0 ''0100-01-01'' ''0099-12-31'') = 693960"
proof -
  have s: "dateParse ''0100-01-01'' = Some (- 59011459200000)"
    by (simp add: dateParse_def digitValue_def DaysInMonth_def date_defs Let_def)
  have e: "dateParse ''0099-12-31'' = Some (- 59011545600000)"
    by (simp add: dateParse_def digitValue_def DaysInMonth_def date_defs Let_def)
  have ns: "localNoon 0 (Some (- 59011459200000)) = Some (- 59011416000000)"
    by (simp add: localNoon_def newDate_def getFullYear_def getMonth_def getDate_def
        date_defs Let_def)
  have ne: "localNoon 0 (Some (- 59011545600000)) = Some 946641600000"
    by (simp add: localNoon_def newDate_def getFullYear_def getMonth_def getDate_def
        date_defs Let_def)
  have "length (daysLoop 0 (Some (- 59011416000000)) (Some 946641600000) []) = 693960"
    by (subst daysLoop_days) (simp_all add: msPerDay_def loopTurns_def)
  with s e ns ne show ?thesis
    by (simp add: generateDays_def)
qed

end
